theory Spec2Isabelle
  imports Main
begin

section \<open>Strings and formatting\<close>

text \<open>
  Go strings are byte strings; they are modelled as \<open>string\<close> (a list of characters).
  The functions of this section are those of Go's \<open>strings\<close> and \<open>fmt\<close> packages that
  the ACL code calls, restricted to the way it calls them (one-byte separators).
\<close>

fun Join :: "string list \<Rightarrow> string \<Rightarrow> string" where
  "Join [] sep = []"
| "Join [x] sep = x"
| "Join (x # y # ys) sep = x @ sep @ Join (y # ys) sep"

definition HasPrefix :: "string \<Rightarrow> string \<Rightarrow> bool" where
  "HasPrefix s p = (take (length p) s = p)"

text \<open>\<open>strings.CutPrefix\<close>: the rest of the string when the prefix is there.\<close>

definition CutPrefix :: "string \<Rightarrow> string \<Rightarrow> string option" where
  "CutPrefix s p = (if HasPrefix s p then Some (drop (length p) s) else None)"

definition TrimPrefix :: "string \<Rightarrow> string \<Rightarrow> string" where
  "TrimPrefix s p = (if HasPrefix s p then drop (length p) s else s)"

text \<open>\<open>strings.Split\<close> with a one-byte separator: the empty string gives one empty part.\<close>

fun Split :: "string \<Rightarrow> char \<Rightarrow> string list" where
  "Split [] sep = [[]]"
| "Split (c # cs) sep =
     (if c = sep then [] # Split cs sep
      else (case Split cs sep of [] \<Rightarrow> [[c]] | p # ps \<Rightarrow> (c # p) # ps))"

text \<open>\<open>strings.SplitN(s, sep, 2)\<close>: cut at the first separator, if there is one.\<close>

definition SplitN2 :: "string \<Rightarrow> char \<Rightarrow> string list" where
  "SplitN2 s sep =
     (if sep \<in> set s
      then [takeWhile (\<lambda>c. c \<noteq> sep) s, tl (dropWhile (\<lambda>c. c \<noteq> sep) s)]
      else [s])"

text \<open>
  \<open>strings.TrimSpace\<close> on ASCII white space; the white space characters of Unicode
  that take two bytes are left out.
\<close>

definition isSpace :: "char \<Rightarrow> bool" where
  "isSpace c = (c \<in> set [CHR '' '', CHR 0x09, CHR 0x0A, CHR 0x0B, CHR 0x0C, CHR 0x0D])"

definition TrimSpace :: "string \<Rightarrow> string" where
  "TrimSpace s = rev (dropWhile isSpace (rev (dropWhile isSpace s)))"

text \<open>
  Modelled from the spec: \<open>util.SplitNTrimSpace\<close> lives in the repository's shared
  utilities, which are not among the sources at hand. The spec describes its use as
  "splitting on \<open>,\<close> and trimming"; every call site passes the separator \<open>","\<close> and
  the count \<open>-1\<close> (no limit), so the count is not a parameter here. With
  \<open>nilIfEmpty\<close> a blank input gives no part at all.
\<close>

definition SplitNTrimSpace :: "string \<Rightarrow> char \<Rightarrow> bool \<Rightarrow> string list" where
  "SplitNTrimSpace s sep nilIfEmpty =
     (if nilIfEmpty \<and> TrimSpace s = [] then [] else map TrimSpace (Split s sep))"

text \<open>The verb \<open>%d\<close> of \<open>fmt.Sprintf\<close> on an integer.\<close>

fun digits :: "nat \<Rightarrow> string" where
  "digits n =
     (if n < 10 then [''0123456789'' ! n]
      else digits (n div 10) @ [''0123456789'' ! (n mod 10)])"

declare digits.simps [simp del]

definition Itoa :: "int \<Rightarrow> string" where
  "Itoa i = (if i < 0 then CHR ''-'' # digits (nat (- i)) else digits (nat i))"

section \<open>Data model\<close>

text \<open>The fields of \<open>api.NetworkACLRule\<close> that the OVN code reads.\<close>

record NetworkACLRule =
  Action :: string
  Source :: string
  Destination :: string
  Protocol :: string
  SourcePort :: string
  DestinationPort :: string
  ICMPType :: string
  ICMPCode :: string
  State :: string

record NetworkACL =
  Name :: string
  Project :: string
  Ingress :: "NetworkACLRule list"
  Egress :: "NetworkACLRule list"

text \<open>
  \<open>ovn.OVNACLRule\<close>. A field that the code does not set has Go's zero value: the
  empty string, 0, false.
\<close>

record OVNACLRule =
  Direction :: string
  OVNAction :: string
  Priority :: int
  Match :: string
  Log :: bool
  LogName :: string

record NetworkPeerConnection =
  NetworkName :: string
  PeerName :: string

text \<open>\<open>NetworkACLUsage\<close>: a network an ACL is bound to.\<close>

record NetworkACLUsage =
  UsageID :: int
  UsageName :: string

text \<open>OVN ACL rule priorities.\<close>

definition ovnACLPriorityPortGroupDefaultAction :: int where
  "ovnACLPriorityPortGroupDefaultAction = 0"

definition ovnACLPriorityNICDefaultActionIngress :: int where
  "ovnACLPriorityNICDefaultActionIngress = 100"

definition ovnACLPriorityNICDefaultActionEgress :: int where
  "ovnACLPriorityNICDefaultActionEgress = 111"

definition ovnACLPrioritySwitchAllow :: int where
  "ovnACLPrioritySwitchAllow = 200"

definition ovnACLPriorityPortGroupAllow :: int where
  "ovnACLPriorityPortGroupAllow = 300"

definition ovnACLPriorityPortGroupReject :: int where
  "ovnACLPriorityPortGroupReject = 400"

definition ovnACLPriorityPortGroupDrop :: int where
  "ovnACLPriorityPortGroupDrop = 500"

definition ovnACLPortGroupPrefix :: string where
  "ovnACLPortGroupPrefix = ''incus_acl''"

definition OVNACLPortGroupName :: "int \<Rightarrow> string" where
  "OVNACLPortGroupName networkACLID = ovnACLPortGroupPrefix @ Itoa networkACLID"

definition OVNACLNetworkPortGroupName :: "int \<Rightarrow> int \<Rightarrow> string" where
  "OVNACLNetworkPortGroupName networkACLID networkID =
     ovnACLPortGroupPrefix @ Itoa networkACLID @ ''_net'' @ Itoa networkID"

definition OVNIntSwitchPortGroupName :: "int \<Rightarrow> string" where
  "OVNIntSwitchPortGroupName networkID = ''incus_net'' @ Itoa networkID"

definition OVNIntSwitchPortGroupAddressSetPrefix :: "int \<Rightarrow> string" where
  "OVNIntSwitchPortGroupAddressSetPrefix networkID =
     OVNIntSwitchPortGroupName networkID @ ''_routes''"

definition OVNNetworkPrefix :: "int \<Rightarrow> string" where
  "OVNNetworkPrefix networkID = ''incus-net'' @ Itoa networkID"

definition OVNIntSwitchName :: "int \<Rightarrow> string" where
  "OVNIntSwitchName networkID = OVNNetworkPrefix networkID @ ''-ls-int''"

definition OVNIntSwitchRouterPortName :: "int \<Rightarrow> string" where
  "OVNIntSwitchRouterPortName networkID = OVNIntSwitchName networkID @ ''-lsp-router''"

subsection \<open>What the code takes from outside this file\<close>

text \<open>
  The address parsers of Go's \<open>net\<close> package, the validators of the repository's
  \<open>validate\<close> package and the reserved subject names (constants of the \<open>acl\<close> package
  declared outside the sources at hand) are parameters of the model. A parser gives
  the address family it found, \<open>IPv4\<close> when \<open>ip.To4()\<close> is not nil; a validator is
  True when the Go function returns a nil error.

  Go ranges over a map in an order it does not specify. \<open>rangeOrder\<close> is the order in
  which the keys of a set of names come out of a \<open>range\<close>, given the keys in the
  order of their insertion: some permutation of them, and nothing proved below
  depends on which.
\<close>

datatype IPFamily = IPv4 | IPv6

record Env =
  IsNetworkRange :: "string \<Rightarrow> bool"
  IsNetworkAddressCIDR :: "string \<Rightarrow> bool"
  ParseIP :: "string \<Rightarrow> IPFamily option"
  ParseCIDR :: "string \<Rightarrow> IPFamily option"
  ruleSubjectInternal :: string
  ruleSubjectExternal :: string
  ruleSubjectInternalAliases :: "string list"
  ruleSubjectExternalAliases :: "string list"
  rangeOrder :: "string list \<Rightarrow> string list"

text \<open>Every error return of the code is a value; the message text is left out.\<close>

datatype error =
    InvalidIPRange string
  | CannotParsePeer string
  | PeerNetworkIDNotFound string
  | ACLIDNotFound string
  | PeerRequired NetworkPeerConnection string
  | AddressSetNotFound string
  | ProjectNotFound string
  | NetworkACLNotFound string
  | NetworkNotFound string
  | DatabaseFailure string
  | ErrExists string
  | ErrNotFound string
  | OVNFailure string
  | ErrInstanceListStop
  | IgnoreUsageNicName
  | UnrecognisedUsageType
  | RetrieveFailed string

text \<open>A Go loop whose body may return an error: the first error ends the loop.\<close>

fun forEach :: "('a \<Rightarrow> 's \<Rightarrow> error + 's) \<Rightarrow> 'a list \<Rightarrow> 's \<Rightarrow> error + 's" where
  "forEach body [] acc = Inr acc"
| "forEach body (x # xs) acc =
     (case body x acc of Inl e \<Rightarrow> Inl e | Inr acc' \<Rightarrow> forEach body xs acc')"

section \<open>The compiler: one rule to one OVN rule\<close>

definition ipProtocol :: "IPFamily \<Rightarrow> string" where
  "ipProtocol fam = (case fam of IPv4 \<Rightarrow> ''ip4'' | IPv6 \<Rightarrow> ''ip6'')"

text \<open>
  The body of the loop of \<open>ovnRuleSubjectToOVNACLMatch\<close>, on the accumulators
  \<open>fieldParts\<close>, \<open>networkSpecific\<close> and \<open>networkPeersNeeded\<close>.
\<close>

definition ovnRuleSubjectToOVNACLMatch_body ::
  "Env \<Rightarrow> string \<Rightarrow> (string \<rightharpoonup> int) \<Rightarrow> (NetworkPeerConnection \<rightharpoonup> int) \<Rightarrow> string \<Rightarrow>
   string list \<times> bool \<times> NetworkPeerConnection list \<Rightarrow>
   error + (string list \<times> bool \<times> NetworkPeerConnection list)" where
  "ovnRuleSubjectToOVNACLMatch_body env direction aclNameIDs peerTargetNetIDs subjectCriterion acc =
     (case acc of (fieldParts, networkSpecific, networkPeersNeeded) \<Rightarrow>
      if IsNetworkRange env subjectCriterion then
        (let criterionParts = SplitN2 subjectCriterion CHR ''-'' in
         if length criterionParts > 1 then
           (case ParseIP env (criterionParts ! 0) of
              Some fam \<Rightarrow>
                Inr (fieldParts @
                       [''('' @ ipProtocol fam @ ''.'' @ direction @ '' >= '' @ criterionParts ! 0 @
                        '' && '' @ ipProtocol fam @ ''.'' @ direction @ '' <= '' @ criterionParts ! 1 @ '')''],
                     networkSpecific, networkPeersNeeded)
            | None \<Rightarrow> Inr (fieldParts, networkSpecific, networkPeersNeeded))
         else Inl (InvalidIPRange subjectCriterion))
      else
        (case (case ParseIP env subjectCriterion of
                 Some fam \<Rightarrow> Some fam
               | None \<Rightarrow> ParseCIDR env subjectCriterion) of
           Some fam \<Rightarrow>
             Inr (fieldParts @ [ipProtocol fam @ ''.'' @ direction @ '' == '' @ subjectCriterion],
                  networkSpecific, networkPeersNeeded)
         | None \<Rightarrow>
             (let portType = (if direction = ''dst'' then ''outport'' else ''inport'') in
              if subjectCriterion \<in> set (ruleSubjectInternalAliases env) then
                Inr (fieldParts @ [portType @ '' == @'' @ ruleSubjectInternal env],
                     True, networkPeersNeeded)
              else if subjectCriterion \<in> set (ruleSubjectExternalAliases env) then
                Inr (fieldParts @ [portType @ '' == @'' @ ruleSubjectExternal env],
                     True, networkPeersNeeded)
              else if HasPrefix subjectCriterion ''$'' then
                Inr (fieldParts @
                       [''ip6.'' @ direction @ '' == '' @ subjectCriterion @ ''_ip6 || ip4.'' @
                        direction @ '' == '' @ subjectCriterion @ ''_ip4''],
                     networkSpecific, networkPeersNeeded)
              else
                (case CutPrefix subjectCriterion ''@'' of
                   Some after \<Rightarrow>
                     (let peerParts = SplitN2 after CHR ''/'' in
                      if length peerParts \<noteq> 2 then Inl (CannotParsePeer subjectCriterion)
                      else
                        (let peer = \<lparr>NetworkName = peerParts ! 0, PeerName = peerParts ! 1\<rparr> in
                         case peerTargetNetIDs peer of
                           None \<Rightarrow> Inl (PeerNetworkIDNotFound subjectCriterion)
                         | Some networkID \<Rightarrow>
                             (let addrSetPrefix = OVNIntSwitchPortGroupAddressSetPrefix networkID in
                              Inr (fieldParts @
                                     [''ip6.'' @ direction @ '' == $'' @ addrSetPrefix @
                                      ''_ip6 || ip4.'' @ direction @ '' == $'' @ addrSetPrefix @ ''_ip4''],
                                   networkSpecific, networkPeersNeeded @ [peer]))))
                 | None \<Rightarrow>
                     (case aclNameIDs subjectCriterion of
                        None \<Rightarrow> Inl (ACLIDNotFound subjectCriterion)
                      | Some aclID \<Rightarrow>
                          Inr (fieldParts @ [portType @ '' == @'' @ OVNACLPortGroupName aclID],
                               networkSpecific, networkPeersNeeded))))))"

definition ovnRuleSubjectToOVNACLMatch ::
  "Env \<Rightarrow> string \<Rightarrow> (string \<rightharpoonup> int) \<Rightarrow> (NetworkPeerConnection \<rightharpoonup> int) \<Rightarrow> string list \<Rightarrow>
   error + (string \<times> bool \<times> NetworkPeerConnection list)" where
  "ovnRuleSubjectToOVNACLMatch env direction aclNameIDs peerTargetNetIDs subjectCriteria =
     (case forEach (ovnRuleSubjectToOVNACLMatch_body env direction aclNameIDs peerTargetNetIDs)
             subjectCriteria ([], False, []) of
        Inl e \<Rightarrow> Inl e
      | Inr (fieldParts, networkSpecific, networkPeersNeeded) \<Rightarrow>
          Inr (Join fieldParts '' || '', networkSpecific, networkPeersNeeded))"

text \<open>One port criterion of \<open>ovnRulePortToOVNACLMatch\<close>: a single port or a range.\<close>

definition portCriterionMatch :: "string \<Rightarrow> string \<Rightarrow> string \<Rightarrow> string" where
  "portCriterionMatch protocol direction portCriterion =
     (let criterionParts = SplitN2 portCriterion CHR ''-'' in
      if length criterionParts > 1
      then ''('' @ protocol @ ''.'' @ direction @ '' >= '' @ criterionParts ! 0 @ '' && '' @
           protocol @ ''.'' @ direction @ '' <= '' @ criterionParts ! 1 @ '')''
      else protocol @ ''.'' @ direction @ '' == '' @ criterionParts ! 0)"

definition ovnRulePortToOVNACLMatch :: "string \<Rightarrow> string \<Rightarrow> string list \<Rightarrow> string" where
  "ovnRulePortToOVNACLMatch protocol direction portCriteria =
     Join (map (portCriterionMatch protocol direction) portCriteria) '' || ''"

text \<open>The action and priority switch: it has no default case.\<close>

definition actionAndPriority :: "string \<Rightarrow> string \<times> int" where
  "actionAndPriority action =
     (if action = ''allow'' then (''allow-related'', ovnACLPriorityPortGroupAllow)
      else if action = ''allow-stateless'' then (''allow-stateless'', ovnACLPriorityPortGroupAllow)
      else if action = ''reject'' then (''reject'', ovnACLPriorityPortGroupReject)
      else if action = ''drop'' then (''drop'', ovnACLPriorityPortGroupDrop)
      else ([], 0))"

definition directionAnchor :: "string \<Rightarrow> string \<Rightarrow> string" where
  "directionAnchor direction portGroupName =
     (if direction = ''ingress'' then ''outport == @'' @ portGroupName
      else if direction = ''egress'' then ''inport == @'' @ portGroupName
      else ''inport == @'' @ portGroupName @ '' || outport == @'' @ portGroupName)"

text \<open>The protocol filters appended to the match parts.\<close>

definition protocolParts :: "NetworkACLRule \<Rightarrow> string list" where
  "protocolParts rule =
     (if Protocol rule \<in> set [''tcp'', ''udp''] then
        [Protocol rule] @
        (if SourcePort rule \<noteq> []
         then [ovnRulePortToOVNACLMatch (Protocol rule) ''src''
                 (SplitNTrimSpace (SourcePort rule) CHR '','' False)]
         else []) @
        (if DestinationPort rule \<noteq> []
         then [ovnRulePortToOVNACLMatch (Protocol rule) ''dst''
                 (SplitNTrimSpace (DestinationPort rule) CHR '','' False)]
         else [])
      else if Protocol rule \<in> set [''icmp4'', ''icmp6''] then
        [Protocol rule] @
        (if ICMPType rule \<noteq> [] then [Protocol rule @ ''.type == '' @ ICMPType rule] else []) @
        (if ICMPCode rule \<noteq> [] then [Protocol rule @ ''.code == '' @ ICMPCode rule] else [])
      else [])"

text \<open>The subject filter of one side of the rule, when that side is not empty.\<close>

definition subjectParts ::
  "Env \<Rightarrow> string \<Rightarrow> (string \<rightharpoonup> int) \<Rightarrow> (NetworkPeerConnection \<rightharpoonup> int) \<Rightarrow> string \<Rightarrow>
   error + (string list \<times> bool \<times> NetworkPeerConnection list)" where
  "subjectParts env direction aclNameIDs peerTargetNetIDs subject =
     (if subject \<noteq> [] then
        (case ovnRuleSubjectToOVNACLMatch env direction aclNameIDs peerTargetNetIDs
                (SplitNTrimSpace subject CHR '','' False) of
           Inl e \<Rightarrow> Inl e
         | Inr (match, netSpecificMatch, networkPeers) \<Rightarrow>
             Inr ([match], netSpecificMatch, networkPeers))
      else Inr ([], False, []))"

definition ovnRuleCriteriaToOVNACLRule ::
  "Env \<Rightarrow> string \<Rightarrow> NetworkACLRule \<Rightarrow> string \<Rightarrow> (string \<rightharpoonup> int) \<Rightarrow>
   (NetworkPeerConnection \<rightharpoonup> int) \<Rightarrow> error + (OVNACLRule \<times> bool \<times> NetworkPeerConnection list)" where
  "ovnRuleCriteriaToOVNACLRule env direction rule portGroupName aclNameIDs peerTargetNetIDs =
     (case subjectParts env ''src'' aclNameIDs peerTargetNetIDs (Source rule) of
        Inl e \<Rightarrow> Inl e
      | Inr (srcParts, srcSpecific, srcPeers) \<Rightarrow>
     (case subjectParts env ''dst'' aclNameIDs peerTargetNetIDs (Destination rule) of
        Inl e \<Rightarrow> Inl e
      | Inr (dstParts, dstSpecific, dstPeers) \<Rightarrow>
          (let matchParts =
                 [directionAnchor direction portGroupName] @ srcParts @ dstParts @ protocolParts rule
           in Inr (\<lparr>Direction = ''to-lport'',
                    OVNAction = fst (actionAndPriority (Action rule)),
                    Priority = snd (actionAndPriority (Action rule)),
                    Match = ''('' @ Join matchParts '') && ('' @ '')'',
                    Log = False,
                    LogName = []\<rparr>,
                   srcSpecific \<or> dstSpecific,
                   srcPeers @ dstPeers))))"

section \<open>The compiler: one ACL to its rule lists\<close>

definition replaceAddressSetNames :: "string \<Rightarrow> (string \<rightharpoonup> int) \<Rightarrow> string" where
  "replaceAddressSetNames subject addressSetIDs =
     Join (map (\<lambda>subj.
                  case CutPrefix subj ''$'' of
                    Some after \<Rightarrow>
                      (case addressSetIDs after of
                         Some setID \<Rightarrow> ''$incus_set'' @ Itoa setID
                       | None \<Rightarrow> subj)
                  | None \<Rightarrow> subj)
             (SplitNTrimSpace subject CHR '','' True)) '',''"

text \<open>
  \<open>extractAddressSets\<close> fills a Go set, which is then read in an unspecified order;
  the model keeps one order, without duplicates.
\<close>

definition extractAddressSets :: "NetworkACLRule list \<Rightarrow> string list" where
  "extractAddressSets rules =
     concat (map (\<lambda>rule.
                    filter (\<lambda>subj. HasPrefix subj ''$'') (SplitNTrimSpace (Source rule) CHR '','' True) @
                    filter (\<lambda>subj. HasPrefix subj ''$'') (SplitNTrimSpace (Destination rule) CHR '','' True))
                 rules)"

text \<open>
  The address sets of the ACL's project are a table from name to ID;
  \<open>cluster.GetNetworkAddressSet\<close> fails when the name is not there.
\<close>

definition loadAddressSetIDs :: "(string \<rightharpoonup> int) \<Rightarrow> string list \<Rightarrow> error + (string \<rightharpoonup> int)" where
  "loadAddressSetIDs addressSets addressSetNames =
     forEach (\<lambda>setName addressSetIDs.
                case addressSets (TrimPrefix setName ''$'') of
                  None \<Rightarrow> Inl (AddressSetNotFound (TrimPrefix setName ''$''))
                | Some setID \<Rightarrow> Inr (addressSetIDs(TrimPrefix setName ''$'' \<mapsto> setID)))
             addressSetNames Map.empty"

text \<open>
  The body of the loop of \<open>convertACLRules\<close>, on \<open>portGroupRules\<close>, \<open>networkRules\<close>
  and \<open>networkPeersNeeded\<close>.
\<close>

definition convertACLRule ::
  "Env \<Rightarrow> string \<Rightarrow> (string \<rightharpoonup> int) \<Rightarrow> (NetworkPeerConnection \<rightharpoonup> int) \<Rightarrow> (string \<rightharpoonup> int) \<Rightarrow>
   string \<Rightarrow> nat \<times> NetworkACLRule \<Rightarrow>
   OVNACLRule list \<times> OVNACLRule list \<times> NetworkPeerConnection list \<Rightarrow>
   error + (OVNACLRule list \<times> OVNACLRule list \<times> NetworkPeerConnection list)" where
  "convertACLRule env portGroupName aclNameIDs peerTargetNetIDs addressSetIDs direction indexed acc =
     (case indexed of (ruleIndex, rule) \<Rightarrow>
      case acc of (portGroupRules, networkRules, networkPeersNeeded) \<Rightarrow>
      if State rule = ''disabled'' then Inr acc
      else
        (case ovnRuleCriteriaToOVNACLRule env direction
                (rule\<lparr>Source := replaceAddressSetNames (Source rule) addressSetIDs,
                      Destination := replaceAddressSetNames (Destination rule) addressSetIDs\<rparr>)
                portGroupName aclNameIDs peerTargetNetIDs of
           Inl e \<Rightarrow> Inl e
         | Inr (ovnACLRule, networkSpecific, networkPeers) \<Rightarrow>
             (let logged =
                    (if State rule = ''logged''
                     then ovnACLRule\<lparr>Log := True,
                                     LogName := portGroupName @ ''-'' @ direction @ ''-'' @
                                                Itoa (int ruleIndex)\<rparr>
                     else ovnACLRule)
              in if networkSpecific
                 then Inr (portGroupRules, networkRules @ [logged], networkPeersNeeded @ networkPeers)
                 else Inr (portGroupRules @ [logged], networkRules, networkPeersNeeded @ networkPeers))))"

definition convertACLRules ::
  "Env \<Rightarrow> string \<Rightarrow> (string \<rightharpoonup> int) \<Rightarrow> (NetworkPeerConnection \<rightharpoonup> int) \<Rightarrow> (string \<rightharpoonup> int) \<Rightarrow>
   string \<Rightarrow> NetworkACLRule list \<Rightarrow>
   OVNACLRule list \<times> OVNACLRule list \<times> NetworkPeerConnection list \<Rightarrow>
   error + (OVNACLRule list \<times> OVNACLRule list \<times> NetworkPeerConnection list)" where
  "convertACLRules env portGroupName aclNameIDs peerTargetNetIDs addressSetIDs direction rules acc =
     forEach (convertACLRule env portGroupName aclNameIDs peerTargetNetIDs addressSetIDs direction)
       (zip [0 ..< length rules] rules) acc"

definition defaultRule :: "string \<Rightarrow> OVNACLRule" where
  "defaultRule portGroupName =
     \<lparr>Direction = ''to-lport'',
      OVNAction = ''drop'',
      Priority = ovnACLPriorityPortGroupDefaultAction,
      Match = ''(inport == @'' @ portGroupName @ '' || outport == @'' @ portGroupName @ '')'',
      Log = False,
      LogName = portGroupName\<rparr>"

text \<open>
  The first part of \<open>ovnApplyToPortGroup\<close>, before it talks to OVN: the address sets
  are looked up, the ingress and then the egress rules are converted, and the
  default rule is appended to the port group rules. The result is
  \<open>portGroupRules\<close>, \<open>networkRules\<close> and \<open>networkPeersNeeded\<close>.
\<close>

definition ovnApplyToPortGroup_rules ::
  "Env \<Rightarrow> (string \<rightharpoonup> int) \<Rightarrow> NetworkACL \<Rightarrow> string \<Rightarrow> (string \<rightharpoonup> int) \<Rightarrow>
   (NetworkPeerConnection \<rightharpoonup> int) \<Rightarrow>
   error + (OVNACLRule list \<times> OVNACLRule list \<times> NetworkPeerConnection list)" where
  "ovnApplyToPortGroup_rules env addressSets aclInfo portGroupName aclNameIDs peerTargetNetIDs =
     (case loadAddressSetIDs addressSets
             (remdups (extractAddressSets (Ingress aclInfo) @ extractAddressSets (Egress aclInfo))) of
        Inl e \<Rightarrow> Inl e
      | Inr addressSetIDs \<Rightarrow>
     (case convertACLRules env portGroupName aclNameIDs peerTargetNetIDs addressSetIDs
             ''ingress'' (Ingress aclInfo) ([], [], []) of
        Inl e \<Rightarrow> Inl e
      | Inr acc \<Rightarrow>
     (case convertACLRules env portGroupName aclNameIDs peerTargetNetIDs addressSetIDs
             ''egress'' (Egress aclInfo) acc of
        Inl e \<Rightarrow> Inl e
      | Inr (portGroupRules, networkRules, networkPeersNeeded) \<Rightarrow>
          Inr (portGroupRules @ [defaultRule portGroupName], networkRules, networkPeersNeeded))))"

section \<open>Referenced ACLs\<close>

text \<open>
  \<open>referencedACLNames\<close> is a Go set of strings. It is modelled as a list without
  duplicates, in the order of insertion; where the code ranges over the set, the
  order is \<open>rangeOrder\<close> of this list.
\<close>

definition addACLNamesFrom :: "Env \<Rightarrow> string list \<Rightarrow> string list \<Rightarrow> string list" where
  "addACLNamesFrom env ruleSubjects referencedACLNames =
     fold (\<lambda>subject referencedACLNames.
             if subject \<in> set referencedACLNames then referencedACLNames
             else if subject \<in> set (ruleSubjectInternalAliases env @ ruleSubjectExternalAliases env)
               then referencedACLNames
             else if IsNetworkAddressCIDR env subject \<or> IsNetworkRange env subject
               then referencedACLNames
             else referencedACLNames @ [subject])
       ruleSubjects referencedACLNames"

definition ovnAddReferencedACLs :: "Env \<Rightarrow> NetworkACL \<Rightarrow> string list \<Rightarrow> string list" where
  "ovnAddReferencedACLs env info referencedACLNames =
     fold (\<lambda>rule. addACLNamesFrom env (SplitNTrimSpace (Destination rule) CHR '','' True))
       (Egress info)
       (fold (\<lambda>rule. addACLNamesFrom env (SplitNTrimSpace (Source rule) CHR '','' True))
          (Ingress info) referencedACLNames)"

section \<open>The OVN northbound client\<close>

text \<open>
  Modelled from the spec: the client \<open>ovn.NB\<close> is not among the sources at hand. The
  spec lists its operations: \<open>get_port_group_info\<close> tells whether a port group is
  there and whether it carries rules, \<open>create_port_group\<close> adds one,
  \<open>delete_port_group\<close> deletes a batch and does not mind a missing name,
  \<open>update_port_group_acl_rules\<close> replaces the rule set of a port group in one step,
  after applying the match substitutions to each rule, and
  \<open>list_port_groups_by_project\<close> lists names. The package declares the errors
  \<open>ErrExists\<close> and \<open>ErrNotFound\<close>: creating a name that is there and updating one that
  is not are refused with them. Every call may also fail for a reason of its own
  (the remote call failed): \<open>failing\<close> lists the calls that do, by their number, and
  \<open>calls\<close> counts them. \<open>history\<close> records the changes in the order they were made.
\<close>

record PortGroup =
  groupProject :: int
  groupParent :: string
  groupSwitch :: string
  groupPorts :: "string list"
  groupRules :: "OVNACLRule list"

datatype event =
    PortGroupCreated string
  | PortGroupsDeleted "string list"
  | RulesReplaced string "OVNACLRule list"

record NB =
  portGroups :: "(string \<times> PortGroup) list"
  history :: "event list"
  calls :: nat
  failing :: "nat list"

text \<open>A computation on a state that may end in an error; the state is kept either way.\<close>

type_synonym ('a, 's) run = "'s \<Rightarrow> (error + 'a) \<times> 's"

definition succeed :: "'a \<Rightarrow> ('a, 's) run" where
  "succeed x s = (Inr x, s)"

definition failWith :: "error \<Rightarrow> ('a, 's) run" where
  "failWith e s = (Inl e, s)"

definition andThen :: "('a, 's) run \<Rightarrow> ('a \<Rightarrow> ('b, 's) run) \<Rightarrow> ('b, 's) run" where
  "andThen m k s = (case m s of (Inl e, s') \<Rightarrow> (Inl e, s') | (Inr x, s') \<Rightarrow> k x s')"

fun forEachRun :: "('a \<Rightarrow> 'acc \<Rightarrow> ('acc, 's) run) \<Rightarrow> 'a list \<Rightarrow> 'acc \<Rightarrow> ('acc, 's) run" where
  "forEachRun body [] acc s = (Inr acc, s)"
| "forEachRun body (x # xs) acc s =
     (case body x acc s of
        (Inl e, s') \<Rightarrow> (Inl e, s')
      | (Inr acc', s') \<Rightarrow> forEachRun body xs acc' s')"

definition call :: "string \<Rightarrow> ('a, NB) run \<Rightarrow> ('a, NB) run" where
  "call what operation nb =
     (if calls nb \<in> set (failing nb) then (Inl (OVNFailure what), nb\<lparr>calls := Suc (calls nb)\<rparr>)
      else operation (nb\<lparr>calls := Suc (calls nb)\<rparr>))"

definition GetPortGroupInfo :: "string \<Rightarrow> (bool \<times> bool, NB) run" where
  "GetPortGroupInfo portGroupName =
     call portGroupName
       (\<lambda>nb. (Inr (case map_of (portGroups nb) portGroupName of
                      None \<Rightarrow> (False, False)
                    | Some pg \<Rightarrow> (True, groupRules pg \<noteq> [])), nb))"

definition CreatePortGroup ::
  "int \<Rightarrow> string \<Rightarrow> string \<Rightarrow> string \<Rightarrow> string list \<Rightarrow> (unit, NB) run" where
  "CreatePortGroup projectID portGroupName associatedPortGroup associatedSwitch initialPortMembers =
     call portGroupName
       (\<lambda>nb. if portGroupName \<in> set (map fst (portGroups nb))
              then (Inl (ErrExists portGroupName), nb)
              else (Inr (),
                    nb\<lparr>portGroups := portGroups nb @
                          [(portGroupName,
                            \<lparr>groupProject = projectID, groupParent = associatedPortGroup,
                             groupSwitch = associatedSwitch, groupPorts = initialPortMembers,
                             groupRules = []\<rparr>)],
                       history := history nb @ [PortGroupCreated portGroupName]\<rparr>))"

definition DeletePortGroup :: "string list \<Rightarrow> (unit, NB) run" where
  "DeletePortGroup portGroupNames =
     call (concat portGroupNames)
       (\<lambda>nb. (Inr (),
               nb\<lparr>portGroups := filter (\<lambda>entry. fst entry \<notin> set portGroupNames) (portGroups nb),
                  history := history nb @ [PortGroupsDeleted portGroupNames]\<rparr>))"

function replaceAll :: "string \<Rightarrow> string \<Rightarrow> string \<Rightarrow> string" where
  "replaceAll old new s =
     (if s = [] \<or> old = [] then s
      else if HasPrefix s old then new @ replaceAll old new (drop (length old) s)
      else hd s # replaceAll old new (tl s))"
  by pat_completeness auto
termination
  by (relation "measure (\<lambda>(old, new, s). length s)") auto

declare replaceAll.simps [simp del]

definition applyMatchReplace :: "(string \<times> string) list \<Rightarrow> OVNACLRule \<Rightarrow> OVNACLRule" where
  "applyMatchReplace matchReplace rule =
     rule\<lparr>Match := fold (\<lambda>(old, new). replaceAll old new) matchReplace (Match rule)\<rparr>"

definition UpdatePortGroupACLRules ::
  "string \<Rightarrow> (string \<times> string) list \<Rightarrow> OVNACLRule list \<Rightarrow> (unit, NB) run" where
  "UpdatePortGroupACLRules portGroupName matchReplace aclRules =
     call portGroupName
       (\<lambda>nb. if portGroupName \<notin> set (map fst (portGroups nb))
              then (Inl (ErrNotFound portGroupName), nb)
              else (Inr (),
                    nb\<lparr>portGroups :=
                          map (\<lambda>entry.
                                 if fst entry = portGroupName
                                 then (fst entry,
                                       (snd entry)\<lparr>groupRules := map (applyMatchReplace matchReplace) aclRules\<rparr>)
                                 else entry)
                            (portGroups nb),
                       history := history nb @
                          [RulesReplaced portGroupName (map (applyMatchReplace matchReplace) aclRules)]\<rparr>))"

definition GetPortGroupsByProject :: "int \<Rightarrow> (string list, NB) run" where
  "GetPortGroupsByProject projectID =
     call ''port groups''
       (\<lambda>nb. (Inr (map fst (filter (\<lambda>entry. groupProject (snd entry) = projectID) (portGroups nb))), nb))"

section \<open>The database\<close>

text \<open>
  The cluster database is read only; what the code reads from it is a parameter.
  A read of one record fails when the record is not there; a query for a list
  gives \<open>None\<close> when it fails.
\<close>

record DBNetwork =
  netName :: string
  netType :: string

record DBPeer =
  peerName :: string
  TargetNetworkID :: "int option"

record DB =
  dbProjectIDs :: "string \<rightharpoonup> int"
  dbCreatedNetworks :: "string \<Rightarrow> (int \<times> DBNetwork) list option"
  dbNetworkPeers :: "int \<Rightarrow> DBPeer list option"
  dbNetworkACLs :: "string \<Rightarrow> string \<rightharpoonup> NetworkACL"
  dbAddressSets :: "string \<Rightarrow> string \<rightharpoonup> int"
  dbACLIDs :: "string \<Rightarrow> (string \<times> int) list option"
  dbNetworkInAnyState :: "string \<Rightarrow> string \<rightharpoonup> int \<times> string"

text \<open>Reading a Go map of IDs at a key that is not there gives 0.\<close>

definition lookupID :: "(string \<rightharpoonup> int) \<Rightarrow> string \<Rightarrow> int" where
  "lookupID ids name = (case ids name of None \<Rightarrow> 0 | Some i \<Rightarrow> i)"

section \<open>Applying an ACL to its port groups\<close>

text \<open>
  The check that the ACL is only applied to networks that have the required peers:
  the first pair that fails it, networks in the outer loop.
\<close>

definition peerCheck :: "NetworkACLUsage list \<Rightarrow> NetworkPeerConnection list \<Rightarrow> error option" where
  "peerCheck aclNets networkPeersNeeded =
     (case List.find (\<lambda>pair. NetworkName (snd pair) \<noteq> UsageName (fst pair))
             (List.product aclNets networkPeersNeeded) of
        None \<Rightarrow> None
      | Some (aclNet, peer) \<Rightarrow> Some (PeerRequired peer (UsageName aclNet)))"

definition ovnApplyToPortGroup ::
  "Env \<Rightarrow> DB \<Rightarrow> NetworkACL \<Rightarrow> string \<Rightarrow> (string \<rightharpoonup> int) \<Rightarrow> NetworkACLUsage list \<Rightarrow>
   (NetworkPeerConnection \<rightharpoonup> int) \<Rightarrow> (unit, NB) run" where
  "ovnApplyToPortGroup env db aclInfo portGroupName aclNameIDs aclNets peerTargetNetIDs =
     (case ovnApplyToPortGroup_rules env (dbAddressSets db (Project aclInfo)) aclInfo portGroupName
             aclNameIDs peerTargetNetIDs of
        Inl e \<Rightarrow> failWith e
      | Inr (portGroupRules, networkRules, networkPeersNeeded) \<Rightarrow>
          (case peerCheck aclNets networkPeersNeeded of
             Some e \<Rightarrow> failWith e
           | None \<Rightarrow>
               andThen (UpdatePortGroupACLRules portGroupName [] portGroupRules)
                 (\<lambda>_. forEachRun
                         (\<lambda>aclNet _.
                            UpdatePortGroupACLRules
                              (OVNACLNetworkPortGroupName (lookupID aclNameIDs (Name aclInfo)) (UsageID aclNet))
                              [(''@'' @ ruleSubjectInternal env,
                                ''@'' @ OVNIntSwitchPortGroupName (UsageID aclNet)),
                               (''@'' @ ruleSubjectExternal env,
                                [CHR 0x22] @ OVNIntSwitchRouterPortName (UsageID aclNet) @ [CHR 0x22])]
                              networkRules)
                         aclNets ())))"

section \<open>Ensuring the port groups of a list of ACLs\<close>

text \<open>
  Modelled from the spec: the package \<open>revert\<close> is not among the sources at hand. The
  spec describes it as an explicit stack of compensating actions, registered as each
  side effect completes and executed in LIFO order on any error. Every hook that
  \<open>OVNEnsureACLs\<close> registers deletes one port group and drops the error of the
  deletion, so a hook is modelled by the name of its port group, and the reverter by
  the list of the hooks in the order they were added.
\<close>

definition runHook :: "string \<Rightarrow> NB \<Rightarrow> NB" where
  "runHook portGroupName nb = snd (DeletePortGroup [portGroupName] nb)"

definition revertFail :: "string list \<Rightarrow> NB \<Rightarrow> NB" where
  "revertFail hooks nb = fold runHook (rev hooks) nb"

record RunState =
  client :: NB
  hooks :: "string list"

definition onClient :: "('a, NB) run \<Rightarrow> ('a, RunState) run" where
  "onClient operation st =
     (case operation (client st) of (result, nb') \<Rightarrow> (result, st\<lparr>client := nb'\<rparr>))"

definition reverterAdd :: "string \<Rightarrow> (unit, RunState) run" where
  "reverterAdd portGroupName st = (Inr (), st\<lparr>hooks := hooks st @ [portGroupName]\<rparr>)"

record aclStatus =
  statusName :: string
  statusACLInfo :: "NetworkACL option"
  addACLNets :: "NetworkACLUsage list"

text \<open>\<open>addACLNets[aclNet.Name] = aclNet\<close> on a Go map whose values are kept in a list.\<close>

definition setByName :: "NetworkACLUsage \<Rightarrow> NetworkACLUsage list \<Rightarrow> NetworkACLUsage list" where
  "setByName aclNet nets =
     (if UsageName aclNet \<in> set (map UsageName nets)
      then map (\<lambda>n. if UsageName n = UsageName aclNet then aclNet else n) nets
      else nets @ [aclNet])"

text \<open>The peer connections of the OVN networks of the project that have a target network.\<close>

definition getPeerTargetNetIDs ::
  "DB \<Rightarrow> string \<Rightarrow> error + (NetworkPeerConnection \<rightharpoonup> int)" where
  "getPeerTargetNetIDs db aclProjectName =
     (case dbCreatedNetworks db aclProjectName of
        None \<Rightarrow> Inl (DatabaseFailure aclProjectName)
      | Some networks \<Rightarrow>
          forEach (\<lambda>(netID, network) peerTargetNetIDs.
                     if netType network \<noteq> ''ovn'' then Inr peerTargetNetIDs
                     else (case dbNetworkPeers db netID of
                             None \<Rightarrow> Inl (DatabaseFailure (netName network))
                           | Some dbPeers \<Rightarrow>
                               Inr (fold (\<lambda>dbPeer peerTargetNetIDs.
                                            case TargetNetworkID dbPeer of
                                              Some target \<Rightarrow>
                                                peerTargetNetIDs
                                                  (\<lparr>NetworkName = netName network,
                                                    PeerName = peerName dbPeer\<rparr> \<mapsto> target)
                                            | None \<Rightarrow> peerTargetNetIDs)
                                      dbPeers peerTargetNetIDs)))
            networks Map.empty)"

definition loadACL :: "DB \<Rightarrow> string \<Rightarrow> string \<Rightarrow> (NetworkACL, 's) run" where
  "loadACL db aclProjectName aclName =
     (case dbNetworkACLs db aclProjectName aclName of
        None \<Rightarrow> failWith (NetworkACLNotFound aclName)
      | Some aclInfo \<Rightarrow> succeed aclInfo)"

text \<open>
  The loop that checks which port groups exist, on \<open>existingACLPortGroups\<close> and
  \<open>createACLPortGroups\<close>.
\<close>

definition checkPortGroup ::
  "DB \<Rightarrow> string \<Rightarrow> (string \<rightharpoonup> int) \<Rightarrow> NetworkACLUsage list \<Rightarrow> bool \<Rightarrow> string \<Rightarrow>
   aclStatus list \<times> aclStatus list \<Rightarrow> (aclStatus list \<times> aclStatus list, NB) run" where
  "checkPortGroup db aclProjectName aclNameIDs aclNets reapplyRules aclName acc =
     (case acc of (existingACLPortGroups, createACLPortGroups) \<Rightarrow>
      andThen (GetPortGroupInfo (OVNACLPortGroupName (lookupID aclNameIDs aclName)))
        (\<lambda>(present, portGroupHasACLs).
           if \<not> present then
             andThen (loadACL db aclProjectName aclName)
               (\<lambda>aclInfo.
                  succeed (existingACLPortGroups,
                           createACLPortGroups @
                             [\<lparr>statusName = aclName, statusACLInfo = Some aclInfo, addACLNets = []\<rparr>]))
           else
             andThen
               (forEachRun
                  (\<lambda>aclNet nets.
                     andThen
                       (GetPortGroupInfo
                          (OVNACLNetworkPortGroupName (lookupID aclNameIDs aclName) (UsageID aclNet)))
                       (\<lambda>(netPresent, _).
                          succeed (if \<not> netPresent then setByName aclNet nets else nets)))
                  aclNets [])
               (\<lambda>nets.
                  if reapplyRules \<or> \<not> portGroupHasACLs \<or> length nets > 0 then
                    andThen (loadACL db aclProjectName aclName)
                      (\<lambda>aclInfo.
                         succeed (existingACLPortGroups @
                                    [\<lparr>statusName = aclName, statusACLInfo = Some aclInfo,
                                      addACLNets = nets\<rparr>],
                                  createACLPortGroups))
                  else
                    succeed (existingACLPortGroups @
                               [\<lparr>statusName = aclName, statusACLInfo = None, addACLNets = nets\<rparr>],
                             createACLPortGroups))))"

text \<open>
  The ACLs referenced by the rules of the ACLs at hand, without the ACLs to create,
  in the order in which \<open>for aclName := range referencedACLs\<close> visits them.
\<close>

definition referencedACLsOf ::
  "Env \<Rightarrow> bool \<Rightarrow> aclStatus list \<Rightarrow> aclStatus list \<Rightarrow> string list" where
  "referencedACLsOf env reapplyRules existingACLPortGroups createACLPortGroups =
     rangeOrder env
       (filter (\<lambda>aclName. aclName \<notin> set (map statusName createACLPortGroups))
          (fold (\<lambda>status. case statusACLInfo status of
                             Some aclInfo \<Rightarrow> ovnAddReferencedACLs env aclInfo
                           | None \<Rightarrow> id)
             (createACLPortGroups @ (if reapplyRules then existingACLPortGroups else []))
             []))"

text \<open>A port group is created, and the hook that deletes it is added to the reverter.\<close>

definition createWithRevert ::
  "int \<Rightarrow> string \<Rightarrow> string \<Rightarrow> string \<Rightarrow> string list \<Rightarrow> (unit, RunState) run" where
  "createWithRevert projectID portGroupName associatedPortGroup associatedSwitch initialPortMembers =
     andThen (onClient (CreatePortGroup projectID portGroupName associatedPortGroup associatedSwitch
                          initialPortMembers))
       (\<lambda>_. reverterAdd portGroupName)"

definition createReferenced :: "int \<Rightarrow> (string \<rightharpoonup> int) \<Rightarrow> string \<Rightarrow> unit \<Rightarrow> (unit, RunState) run" where
  "createReferenced projectID aclNameIDs aclName _ =
     andThen (onClient (GetPortGroupInfo (OVNACLPortGroupName (lookupID aclNameIDs aclName))))
       (\<lambda>(present, _).
          if \<not> present
          then createWithRevert projectID (OVNACLPortGroupName (lookupID aclNameIDs aclName)) [] [] []
          else succeed ())"

definition createNetworkPortGroup ::
  "int \<Rightarrow> (string \<rightharpoonup> int) \<Rightarrow> string \<Rightarrow> NetworkACLUsage \<Rightarrow> unit \<Rightarrow> (unit, RunState) run" where
  "createNetworkPortGroup projectID aclNameIDs aclName aclNet _ =
     createWithRevert projectID
       (OVNACLNetworkPortGroupName (lookupID aclNameIDs aclName) (UsageID aclNet))
       (OVNACLPortGroupName (lookupID aclNameIDs aclName))
       (OVNIntSwitchName (UsageID aclNet))
       [OVNIntSwitchRouterPortName (UsageID aclNet)]"

definition applyStatus ::
  "Env \<Rightarrow> DB \<Rightarrow> string \<Rightarrow> (string \<rightharpoonup> int) \<Rightarrow> NetworkACLUsage list \<Rightarrow>
   (NetworkPeerConnection \<rightharpoonup> int) \<Rightarrow> string \<Rightarrow> NetworkACL \<Rightarrow> (unit, RunState) run" where
  "applyStatus env db aclProjectName aclNameIDs aclNets peerTargetNetIDs aclName aclInfo =
     onClient (ovnApplyToPortGroup env db (aclInfo\<lparr>Project := aclProjectName\<rparr>)
                 (OVNACLPortGroupName (lookupID aclNameIDs aclName))
                 aclNameIDs aclNets peerTargetNetIDs)"

definition createACLPortGroup ::
  "Env \<Rightarrow> DB \<Rightarrow> string \<Rightarrow> int \<Rightarrow> (string \<rightharpoonup> int) \<Rightarrow> NetworkACLUsage list \<Rightarrow>
   (NetworkPeerConnection \<rightharpoonup> int) \<Rightarrow> aclStatus \<Rightarrow> unit \<Rightarrow> (unit, RunState) run" where
  "createACLPortGroup env db aclProjectName projectID aclNameIDs aclNets peerTargetNetIDs status _ =
     andThen (createWithRevert projectID
                (OVNACLPortGroupName (lookupID aclNameIDs (statusName status))) [] [] [])
       (\<lambda>_. andThen
               (forEachRun (createNetworkPortGroup projectID aclNameIDs (statusName status)) aclNets ())
               (\<lambda>_. case statusACLInfo status of
                       Some aclInfo \<Rightarrow>
                         applyStatus env db aclProjectName aclNameIDs aclNets peerTargetNetIDs
                           (statusName status) aclInfo
                     | None \<Rightarrow> succeed ()))"

definition updateExistingPortGroup ::
  "Env \<Rightarrow> DB \<Rightarrow> string \<Rightarrow> int \<Rightarrow> (string \<rightharpoonup> int) \<Rightarrow> NetworkACLUsage list \<Rightarrow>
   (NetworkPeerConnection \<rightharpoonup> int) \<Rightarrow> aclStatus \<Rightarrow> unit \<Rightarrow> (unit, RunState) run" where
  "updateExistingPortGroup env db aclProjectName projectID aclNameIDs aclNets peerTargetNetIDs status _ =
     andThen
       (forEachRun (createNetworkPortGroup projectID aclNameIDs (statusName status))
          (addACLNets status) ())
       (\<lambda>_. case statusACLInfo status of
               Some aclInfo \<Rightarrow>
                 applyStatus env db aclProjectName aclNameIDs aclNets peerTargetNetIDs
                   (statusName status) aclInfo
             | None \<Rightarrow> succeed ())"

text \<open>
  The body of \<open>OVNEnsureACLs\<close>, from its first statement to \<open>reverter.Success()\<close>,
  on the client and the reverter.
\<close>

definition OVNEnsureACLs_body ::
  "Env \<Rightarrow> DB \<Rightarrow> string \<Rightarrow> (string \<rightharpoonup> int) \<Rightarrow> NetworkACLUsage list \<Rightarrow> string list \<Rightarrow> bool \<Rightarrow>
   (unit, RunState) run" where
  "OVNEnsureACLs_body env db aclProjectName aclNameIDs aclNets aclNames reapplyRules =
     (case dbProjectIDs db aclProjectName of
        None \<Rightarrow> failWith (ProjectNotFound aclProjectName)
      | Some projectID \<Rightarrow>
     (case getPeerTargetNetIDs db aclProjectName of
        Inl e \<Rightarrow> failWith e
      | Inr peerTargetNetIDs \<Rightarrow>
     (case List.find (\<lambda>aclName. aclNameIDs aclName = None) aclNames of
        Some aclName \<Rightarrow> failWith (ACLIDNotFound aclName)
      | None \<Rightarrow>
          andThen
            (onClient (forEachRun (checkPortGroup db aclProjectName aclNameIDs aclNets reapplyRules)
                         aclNames ([], [])))
            (\<lambda>(existingACLPortGroups, createACLPortGroups).
               andThen
                 (forEachRun (createReferenced projectID aclNameIDs)
                    (referencedACLsOf env reapplyRules existingACLPortGroups createACLPortGroups) ())
                 (\<lambda>_. andThen
                         (forEachRun
                            (createACLPortGroup env db aclProjectName projectID aclNameIDs aclNets
                               peerTargetNetIDs)
                            createACLPortGroups ())
                         (\<lambda>_. forEachRun
                                 (updateExistingPortGroup env db aclProjectName projectID aclNameIDs
                                    aclNets peerTargetNetIDs)
                                 existingACLPortGroups ()))))))"

text \<open>
  \<open>OVNEnsureACLs\<close>: \<open>defer reverter.Fail()\<close> runs the hooks when the body returns an
  error; on success the hooks are handed to the caller as the cleanup function
  (a clone of the reverter) and are not run.
\<close>

definition OVNEnsureACLs ::
  "Env \<Rightarrow> DB \<Rightarrow> string \<Rightarrow> (string \<rightharpoonup> int) \<Rightarrow> NetworkACLUsage list \<Rightarrow> string list \<Rightarrow> bool \<Rightarrow>
   NB \<Rightarrow> (error + string list) \<times> NB" where
  "OVNEnsureACLs env db aclProjectName aclNameIDs aclNets aclNames reapplyRules nb =
     (case OVNEnsureACLs_body env db aclProjectName aclNameIDs aclNets aclNames reapplyRules
             \<lparr>client = nb, hooks = []\<rparr> of
        (Inl e, st) \<Rightarrow> (Inl e, revertFail (hooks st) (client st))
      | (Inr _, st) \<Rightarrow> (Inr (hooks st), client st))"

section \<open>Deleting unused port groups\<close>

text \<open>
  What \<open>UsedBy\<close> reports for one use of ACLs: the ACLs matched, the user (an
  instance, a network, a profile or another ACL), and for a NIC its name and the
  network of its configuration.
\<close>

datatype usageType =
    UsageInstance string string
  | UsageNetwork string string
  | UsageProfile string string
  | UsageNetworkACL string
  | UsageOther

text \<open>The argument \<open>ignoreUsageType\<close>, of type \<open>any\<close>, by what the type switches find in it.\<close>

datatype ignoreUsage =
    IgnoreNothing
  | IgnoreInstance string string
  | IgnoreNetwork string
  | IgnoreProfile string string

record Usage =
  matchedACLNames :: "string list"
  usedByType :: usageType
  nicName :: string
  nicNetwork :: string

text \<open>
  Modelled from the spec: \<open>UsedBy\<close> is not among the sources at hand. The spec has it
  invoke the visitor for every entity that references any of the ACLs. The entities
  are a parameter; the walk stops at the first error of the visitor, and may end
  with an error of its own.
\<close>

fun walkUsages :: "(Usage \<Rightarrow> 's \<Rightarrow> error + 's) \<Rightarrow> Usage list \<Rightarrow> 's \<Rightarrow> error option \<times> 's" where
  "walkUsages usageFunc [] s = (None, s)"
| "walkUsages usageFunc (u # us) s =
     (case usageFunc u s of
        Inl e \<Rightarrow> (Some e, s)
      | Inr s' \<Rightarrow> walkUsages usageFunc us s')"

definition UsedBy ::
  "(Usage \<Rightarrow> 's \<Rightarrow> error + 's) \<Rightarrow> Usage list \<Rightarrow> error option \<Rightarrow> 's \<Rightarrow> error option \<times> 's" where
  "UsedBy usageFunc usages ownError s =
     (case walkUsages usageFunc usages s of
        (Some e, s') \<Rightarrow> (Some e, s')
      | (None, s') \<Rightarrow> (ownError, s'))"

definition aclNameIDsOf :: "(string \<times> int) list \<Rightarrow> (string \<rightharpoonup> int)" where
  "aclNameIDsOf acls = fold (\<lambda>(name, aclID) ids. ids(name \<mapsto> aclID)) acls Map.empty"

definition hasKeeperPrefix :: "(string \<rightharpoonup> int) \<Rightarrow> string list \<Rightarrow> string \<Rightarrow> bool" where
  "hasKeeperPrefix aclNameIDs keepACLs portGroup =
     list_ex (\<lambda>keepACLName. HasPrefix portGroup (OVNACLPortGroupName (lookupID aclNameIDs keepACLName)))
       keepACLs"

text \<open>
  The state of the walk: \<open>removeACLPortGroups\<close>, \<open>ovnUsedACLs\<close> (Go sets, kept as
  lists) and \<open>aclUsedACLS\<close> (a Go map from an ACL to the ACLs that refer to it).
\<close>

type_synonym usedState = "string list \<times> string list \<times> (string \<times> string list) list"

definition recordOVNUse :: "(string \<rightharpoonup> int) \<Rightarrow> int \<Rightarrow> string list \<Rightarrow> usedState \<Rightarrow> usedState" where
  "recordOVNUse aclNameIDs netID matched st =
     fold (\<lambda>matchedACLName (removeACLPortGroups, ovnUsedACLs, aclUsedACLS).
             (removeAll (OVNACLNetworkPortGroupName (lookupID aclNameIDs matchedACLName) netID)
                (removeAll (OVNACLPortGroupName (lookupID aclNameIDs matchedACLName))
                   removeACLPortGroups),
              List.insert matchedACLName ovnUsedACLs,
              aclUsedACLS))
       matched st"

definition recordACLUse :: "string \<Rightarrow> string list \<Rightarrow> usedState \<Rightarrow> usedState" where
  "recordACLUse userName matched st =
     fold (\<lambda>matchedACLName (removeACLPortGroups, ovnUsedACLs, aclUsedACLS).
             (removeACLPortGroups, ovnUsedACLs,
              (case map_of aclUsedACLS matchedACLName of
                 None \<Rightarrow> aclUsedACLS @ [(matchedACLName, [userName])]
               | Some users \<Rightarrow>
                   if userName \<in> set users then aclUsedACLS
                   else map (\<lambda>entry. if fst entry = matchedACLName
                                      then (fst entry, snd entry @ [userName]) else entry)
                          aclUsedACLS)))
       matched st"

definition nicUse ::
  "(string \<rightharpoonup> int \<times> string) \<Rightarrow> (string \<rightharpoonup> int) \<Rightarrow> Usage \<Rightarrow> usedState \<Rightarrow> error + usedState" where
  "nicUse getNetwork aclNameIDs usage st =
     (case getNetwork (nicNetwork usage) of
        None \<Rightarrow> Inl (NetworkNotFound (nicNetwork usage))
      | Some (netID, networkType) \<Rightarrow>
          if networkType = ''ovn''
          then Inr (recordOVNUse aclNameIDs netID (matchedACLNames usage) st)
          else Inr st)"

text \<open>The function literal passed to \<open>UsedBy\<close>.\<close>

definition usageFunc ::
  "(string \<rightharpoonup> int \<times> string) \<Rightarrow> (string \<rightharpoonup> int) \<Rightarrow> ignoreUsage \<Rightarrow> string \<Rightarrow> Usage \<Rightarrow> usedState \<Rightarrow>
   error + usedState" where
  "usageFunc getNetwork aclNameIDs ignoreUsageType ignoreUsageNicName usage st =
     (case usedByType usage of
        UsageInstance name project \<Rightarrow>
          (case ignoreUsageType of
             IgnoreInstance ignoreName ignoreProject \<Rightarrow>
               if ignoreUsageNicName = [] then Inl IgnoreUsageNicName
               else if ignoreName = name \<and> ignoreProject = project \<and>
                       ignoreUsageNicName = nicName usage then Inr st
               else nicUse getNetwork aclNameIDs usage st
           | _ \<Rightarrow> nicUse getNetwork aclNameIDs usage st)
      | UsageNetwork name networkType \<Rightarrow>
          (if (case ignoreUsageType of IgnoreNetwork _ \<Rightarrow> True | _ \<Rightarrow> False) \<and>
              ignoreUsageNicName \<noteq> [] then Inl IgnoreUsageNicName
           else if ignoreUsageType = IgnoreNetwork name then Inr st
           else if networkType = ''ovn'' then
             (case getNetwork name of
                None \<Rightarrow> Inl (NetworkNotFound (nicNetwork usage))
              | Some (netID, _) \<Rightarrow> Inr (recordOVNUse aclNameIDs netID (matchedACLNames usage) st))
           else Inr st)
      | UsageProfile name project \<Rightarrow>
          (case ignoreUsageType of
             IgnoreProfile ignoreName ignoreProject \<Rightarrow>
               if ignoreUsageNicName = [] then Inl IgnoreUsageNicName
               else if ignoreName = name \<and> ignoreProject = project \<and>
                       ignoreUsageNicName = nicName usage then Inr st
               else nicUse getNetwork aclNameIDs usage st
           | _ \<Rightarrow> nicUse getNetwork aclNameIDs usage st)
      | UsageNetworkACL name \<Rightarrow> Inr (recordACLUse name (matchedACLNames usage) st)
      | UsageOther \<Rightarrow> Inl UnrecognisedUsageType)"

definition usedByOvn :: "string list \<Rightarrow> string list \<Rightarrow> bool" where
  "usedByOvn ovnUsedACLs aclNames = list_ex (\<lambda>aclName. aclName \<in> set ovnUsedACLs) aclNames"

text \<open>The end of the function, after the walk: the referenced ACLs, then the deletion.\<close>

definition removeRemaining :: "(string \<rightharpoonup> int) \<Rightarrow> usedState \<Rightarrow> string list" where
  "removeRemaining aclNameIDs st =
     (case st of (removeACLPortGroups, ovnUsedACLs, aclUsedACLS) \<Rightarrow>
      fold (\<lambda>(aclName, refACLs) remove.
              if usedByOvn ovnUsedACLs refACLs
              then removeAll (OVNACLPortGroupName (lookupID aclNameIDs aclName)) remove
              else remove)
        aclUsedACLS removeACLPortGroups)"

text \<open>\<open>err != nil && !errors.Is(err, db.ErrInstanceListStop)\<close>\<close>

definition usedByFailed :: "error option \<Rightarrow> bool" where
  "usedByFailed err = (case err of None \<Rightarrow> False | Some e \<Rightarrow> e \<noteq> ErrInstanceListStop)"

definition OVNPortGroupDeleteIfUnused ::
  "DB \<Rightarrow> Usage list \<Rightarrow> error option \<Rightarrow> string \<Rightarrow> ignoreUsage \<Rightarrow> string \<Rightarrow> string list \<Rightarrow>
   (unit, NB) run" where
  "OVNPortGroupDeleteIfUnused db usages usedByError aclProjectName ignoreUsageType ignoreUsageNicName
     keepACLs =
     (case dbACLIDs db aclProjectName of
        None \<Rightarrow> failWith (DatabaseFailure aclProjectName)
      | Some acls \<Rightarrow>
     (case dbProjectIDs db aclProjectName of
        None \<Rightarrow> failWith (ProjectNotFound aclProjectName)
      | Some projectID \<Rightarrow>
          andThen (GetPortGroupsByProject projectID)
            (\<lambda>portGroups.
               (let aclNameIDs = aclNameIDsOf acls;
                    removeACLPortGroups =
                      remdups (filter (\<lambda>portGroup.
                                         HasPrefix portGroup ovnACLPortGroupPrefix \<and>
                                         \<not> hasKeeperPrefix aclNameIDs keepACLs portGroup)
                                 portGroups)
                in case UsedBy (usageFunc (dbNetworkInAnyState db aclProjectName) aclNameIDs
                                  ignoreUsageType ignoreUsageNicName)
                          usages usedByError (removeACLPortGroups, remdups keepACLs, []) of
                     (err, st) \<Rightarrow>
                       if usedByFailed err then failWith (the err)
                       else if length (removeRemaining aclNameIDs st) > 0
                       then DeletePortGroup (removeRemaining aclNameIDs st)
                       else succeed ()))))"

section \<open>The resource inventory cache\<close>

text \<open>
  \<open>GetResources\<close> and its three package variables. The nine collectors it calls are
  parameters, each the outcome of one call; what a collector returns is of one
  type here. Time is in nanoseconds; the function reads the clock twice, for the
  check and when it fills the cache. The mutex makes the whole function one step.
\<close>

record 'c Resources =
  CPU :: 'c
  Memory :: 'c
  GPU :: 'c
  Network :: 'c
  Storage :: 'c
  USB :: 'c
  PCI :: 'c
  System :: 'c
  Load :: 'c

record 'c Collectors =
  GetCPU :: "error + 'c"
  GetMemory :: "error + 'c"
  GetGPU :: "error + 'c"
  GetNetwork :: "error + 'c"
  GetStorage :: "error + 'c"
  GetUSB :: "error + 'c"
  GetPCI :: "error + 'c"
  GetSystem :: "error + 'c"
  GetLoad :: "error + 'c"

record 'c ResourcesCache =
  lastResources :: "'c Resources option"
  lastRun :: int

definition Second :: int where
  "Second = 1000000000"

definition orReturn :: "error + 'a \<Rightarrow> ('a \<Rightarrow> error + 'b) \<Rightarrow> error + 'b" where
  "orReturn r k = (case r of Inl e \<Rightarrow> Inl e | Inr x \<Rightarrow> k x)"

definition collectResources :: "'c Collectors \<Rightarrow> error + 'c Resources" where
  "collectResources c =
     orReturn (GetCPU c) (\<lambda>cpu.
     orReturn (GetMemory c) (\<lambda>memory.
     orReturn (GetGPU c) (\<lambda>gpu.
     orReturn (GetNetwork c) (\<lambda>network.
     orReturn (GetStorage c) (\<lambda>storage.
     orReturn (GetUSB c) (\<lambda>usb.
     orReturn (GetPCI c) (\<lambda>pci.
     orReturn (GetSystem c) (\<lambda>system.
     orReturn (GetLoad c) (\<lambda>load.
       Inr \<lparr>CPU = cpu, Memory = memory, GPU = gpu, Network = network, Storage = storage,
            USB = usb, PCI = pci, System = system, Load = load\<rparr>)))))))))"

definition GetResources ::
  "'c Collectors \<Rightarrow> int \<Rightarrow> int \<Rightarrow> 'c ResourcesCache \<Rightarrow> (error + 'c Resources) \<times> 'c ResourcesCache" where
  "GetResources collectors now nowAfter cache =
     (if lastResources cache \<noteq> None \<and> lastRun cache + 10 * Second < now
      then (Inr (the (lastResources cache)), cache)
      else (case collectResources collectors of
              Inl e \<Rightarrow> (Inl e, cache)
            | Inr resources \<Rightarrow>
                (Inr resources, \<lparr>lastResources = Some resources, lastRun = nowAfter\<rparr>)))"

section \<open>The statements of the specification\<close>

text \<open>
  Modelled from the spec: \<open>ValidActions\<close> is a variable of the \<open>acl\<close> package declared
  outside the sources at hand; the spec gives the four actions.
\<close>

definition ValidActions :: "string list" where
  "ValidActions = [''allow'', ''allow-stateless'', ''reject'', ''drop'']"

text \<open>
  The port predicates in the words of the spec, to be compared with what the code
  computes: a single port \<open>P\<close> lowers to \<open>proto.dir == P\<close>, a range \<open>A-B\<close> to
  \<open>(proto.dir >= A && proto.dir <= B)\<close>, and several comma-separated criteria are
  joined with \<open>||\<close>.
\<close>

fun cutAt :: "string \<Rightarrow> char \<Rightarrow> (string \<times> string) option" where
  "cutAt [] sep = None"
| "cutAt (c # cs) sep =
     (if c = sep then Some ([], cs)
      else (case cutAt cs sep of None \<Rightarrow> None | Some (a, b) \<Rightarrow> Some (c # a, b)))"

definition spec_portPredicate :: "string \<Rightarrow> string \<Rightarrow> string \<Rightarrow> string" where
  "spec_portPredicate proto dir criterion =
     (case cutAt criterion CHR ''-'' of
        None \<Rightarrow> proto @ ''.'' @ dir @ '' == '' @ criterion
      | Some (A, B) \<Rightarrow>
          ''('' @ proto @ ''.'' @ dir @ '' >= '' @ A @ '' && '' @ proto @ ''.'' @ dir @ '' <= '' @ B @ '')'')"

definition spec_portPredicates :: "string \<Rightarrow> string \<Rightarrow> string \<Rightarrow> string list" where
  "spec_portPredicates proto dir ports =
     (if ports = [] then []
      else [Join (map (spec_portPredicate proto dir) (SplitNTrimSpace ports CHR '','' False)) '' || ''])"

text \<open>Invariants of the conversion loop.\<close>

definition prioritiesOK :: "OVNACLRule list \<times> OVNACLRule list \<times> NetworkPeerConnection list \<Rightarrow> bool" where
  "prioritiesOK acc = (case acc of (pgRules, netRules, needed) \<Rightarrow>
     list_all (\<lambda>r. Priority r \<in> {0, 300, 400, 500}) (pgRules @ netRules))"

definition nonZero :: "OVNACLRule list \<times> OVNACLRule list \<times> NetworkPeerConnection list \<Rightarrow> bool" where
  "nonZero acc = (case acc of (pgRules, netRules, needed) \<Rightarrow>
     list_all (\<lambda>r. Priority r \<noteq> 0) (pgRules @ netRules))"

definition zeroUnset :: "OVNACLRule list \<times> OVNACLRule list \<times> NetworkPeerConnection list \<Rightarrow> bool" where
  "zeroUnset acc = (case acc of (pgRules, netRules, needed) \<Rightarrow>
     list_all (\<lambda>r. Priority r = 0 \<longrightarrow> OVNAction r = []) (pgRules @ netRules))"

text \<open>
  What is compared before and after a call of \<open>OVNEnsureACLs\<close>. \<open>applyWrites\<close>
  replays on a list of port groups the rule sets that a list of events wrote:
  an event \<open>RulesReplaced\<close> sets the rule set of the port group it names and touches
  no other port group, the other events change nothing. \<open>replacedNames\<close> are the port
  groups whose rule set was written, \<open>createdNames\<close> the port groups created, in the
  order of the history, and \<open>stripRules\<close> erases every rule set.
\<close>

fun writeRules :: "event \<Rightarrow> (string \<times> PortGroup) list \<Rightarrow> (string \<times> PortGroup) list" where
  "writeRules (RulesReplaced portGroupName aclRules) groups =
     map (\<lambda>entry. if fst entry = portGroupName
                   then (fst entry, (snd entry)\<lparr>groupRules := aclRules\<rparr>)
                   else entry)
       groups"
| "writeRules (PortGroupCreated portGroupName) groups = groups"
| "writeRules (PortGroupsDeleted portGroupNames) groups = groups"

definition applyWrites :: "event list \<Rightarrow> (string \<times> PortGroup) list \<Rightarrow> (string \<times> PortGroup) list" where
  "applyWrites events groups = fold writeRules events groups"

fun replacedNames :: "event list \<Rightarrow> string list" where
  "replacedNames [] = []"
| "replacedNames (PortGroupCreated portGroupName # events) = replacedNames events"
| "replacedNames (PortGroupsDeleted portGroupNames # events) = replacedNames events"
| "replacedNames (RulesReplaced portGroupName aclRules # events) = portGroupName # replacedNames events"

definition stripRules :: "(string \<times> PortGroup) list \<Rightarrow> (string \<times> PortGroup) list" where
  "stripRules groups = map (\<lambda>entry. (fst entry, (snd entry)\<lparr>groupRules := []\<rparr>)) groups"

fun createdNames :: "event list \<Rightarrow> string list" where
  "createdNames [] = []"
| "createdNames (PortGroupCreated portGroupName # events) = portGroupName # createdNames events"
| "createdNames (PortGroupsDeleted portGroupNames # events) = createdNames events"
| "createdNames (RulesReplaced portGroupName aclRules # events) = createdNames events"

fun deletedNames :: "event list \<Rightarrow> string list" where
  "deletedNames [] = []"
| "deletedNames (PortGroupCreated portGroupName # events) = deletedNames events"
| "deletedNames (PortGroupsDeleted portGroupNames # events) = portGroupNames @ deletedNames events"
| "deletedNames (RulesReplaced portGroupName aclRules # events) = deletedNames events"

text \<open>
  A step of the client that creates and deletes nothing: the port groups after it
  are those before it with the rule sets it wrote. And the invariant of the body of
  \<open>OVNEnsureACLs\<close> that relates the reverter to the client: the hooks are the port
  groups created so far, and the other port groups are those of the start with the
  rule sets written so far.
\<close>

definition quietStep :: "NB \<Rightarrow> NB \<Rightarrow> bool" where
  "quietStep nb nb' =
     (failing nb' = failing nb \<and> calls nb \<le> calls nb' \<and>
      (\<exists>events. history nb' = history nb @ events \<and> createdNames events = [] \<and>
                portGroups nb' = applyWrites events (portGroups nb)))"

definition rollbackInv :: "NB \<Rightarrow> RunState \<Rightarrow> bool" where
  "rollbackInv nb0 st =
     (failing (client st) = failing nb0 \<and>
      (\<exists>events. history (client st) = history nb0 @ events \<and> hooks st = createdNames events \<and>
                filter (\<lambda>entry. fst entry \<notin> set (hooks st)) (portGroups (client st)) =
                  applyWrites events (portGroups nb0)))"

definition everyRun :: "('s \<Rightarrow> 's \<Rightarrow> bool) \<Rightarrow> ('a, 's) run \<Rightarrow> bool" where
  "everyRun R m = (\<forall>s r s'. m s = (r, s') \<longrightarrow> R s s')"

abbreviation quiet :: "('a, NB) run \<Rightarrow> bool" where
  "quiet m \<equiv> everyRun quietStep m"

abbreviation preserved :: "NB \<Rightarrow> ('a, RunState) run \<Rightarrow> bool" where
  "preserved nb0 m \<equiv> everyRun (\<lambda>s s'. rollbackInv nb0 s \<longrightarrow> rollbackInv nb0 s') m"

section \<open>Example inputs\<close>

definition example_env :: Env where
  "example_env =
     \<lparr>IsNetworkRange = (\<lambda>s. False), IsNetworkAddressCIDR = (\<lambda>s. False),
      ParseIP = (\<lambda>s. None), ParseCIDR = (\<lambda>s. None),
      ruleSubjectInternal = ''__internal__'', ruleSubjectExternal = ''__external__'',
      ruleSubjectInternalAliases = [''@internal'', ''#internal''],
      ruleSubjectExternalAliases = [''@external'', ''#external''],
      rangeOrder = (\<lambda>names. names)\<rparr>"

definition example_rule :: "string \<Rightarrow> NetworkACLRule" where
  "example_rule action =
     \<lparr>Action = action, Source = [], Destination = [], Protocol = [], SourcePort = [],
      DestinationPort = [], ICMPType = [], ICMPCode = [], State = ''enabled''\<rparr>"

definition example_acl :: "NetworkACLRule list \<Rightarrow> NetworkACLRule list \<Rightarrow> NetworkACL" where
  "example_acl ingress egress =
     \<lparr>Name = ''web'', Project = ''default'', Ingress = ingress, Egress = egress\<rparr>"

definition example_udp_rule :: NetworkACLRule where
  "example_udp_rule = (example_rule ''allow'')\<lparr>Protocol := ''udp'', SourcePort := ''53,1000-2000''\<rparr>"

definition example_tcp_rule :: NetworkACLRule where
  "example_tcp_rule = (example_rule ''allow'')\<lparr>Protocol := ''tcp'', DestinationPort := ''80''\<rparr>"

definition example_subjects_acl :: NetworkACL where
  "example_subjects_acl =
     example_acl [(example_rule ''allow'')\<lparr>Source := ''$office, db, @mynet/mypeer, @internal''\<rparr>] []"

definition example_collectors :: "nat \<Rightarrow> nat Collectors" where
  "example_collectors v =
     \<lparr>GetCPU = Inr v, GetMemory = Inr v, GetGPU = Inr v, GetNetwork = Inr v, GetStorage = Inr v,
      GetUSB = Inr v, GetPCI = Inr v, GetSystem = Inr v, GetLoad = Inr v\<rparr>"

definition example_resources :: "nat \<Rightarrow> nat Resources" where
  "example_resources v =
     \<lparr>CPU = v, Memory = v, GPU = v, Network = v, Storage = v, USB = v, PCI = v, System = v, Load = v\<rparr>"

definition example_nb :: "(string \<times> PortGroup) list \<Rightarrow> nat list \<Rightarrow> NB" where
  "example_nb groups faults = \<lparr>portGroups = groups, history = [], calls = 0, failing = faults\<rparr>"

definition example_db :: "(string \<times> NetworkACL) list \<Rightarrow> (string \<times> int) list \<Rightarrow> DB" where
  "example_db acls ids =
     \<lparr>dbProjectIDs = [''default'' \<mapsto> 1],
      dbCreatedNetworks = (\<lambda>project. Some []),
      dbNetworkPeers = (\<lambda>netID. Some []),
      dbNetworkACLs = (\<lambda>project. map_of acls),
      dbAddressSets = (\<lambda>project. Map.empty),
      dbACLIDs = (\<lambda>project. Some ids),
      dbNetworkInAnyState = (\<lambda>project. Map.empty)\<rparr>"

definition example_named_acl :: "string \<Rightarrow> NetworkACLRule list \<Rightarrow> NetworkACL" where
  "example_named_acl name ingress =
     \<lparr>Name = name, Project = ''default'', Ingress = ingress, Egress = []\<rparr>"

definition example_group :: "OVNACLRule list \<Rightarrow> PortGroup" where
  "example_group rules =
     \<lparr>groupProject = 1, groupParent = [], groupSwitch = [], groupPorts = [], groupRules = rules\<rparr>"


definition example_internal_db :: DB where
  "example_internal_db =
     example_db [(''a'', example_named_acl ''a'' [(example_rule ''allow'')\<lparr>Source := ''@internal''\<rparr>])] []"

definition example_broken_db :: DB where
  "example_broken_db =
     example_db [(''a'', example_named_acl ''a'' []),
                 (''b'', example_named_acl ''b'' [(example_rule ''allow'')\<lparr>Source := ''ghost''\<rparr>])] []"

definition example_order_db :: DB where
  "example_order_db =
     example_db [(''a'', example_named_acl ''a'' [(example_rule ''allow'')\<lparr>Source := ''b''\<rparr>]),
                 (''b'', example_named_acl ''b'' [])] []"

definition example_office_db :: DB where
  "example_office_db =
     (example_db [(''a'', example_named_acl ''a'' [(example_rule ''allow'')\<lparr>Source := ''$office''\<rparr>])] [])
       \<lparr>dbAddressSets := (\<lambda>project. [''office'' \<mapsto> 5])\<rparr>"

definition example_peer_acl :: NetworkACL where
  "example_peer_acl =
     (example_named_acl ''web'' [])
       \<lparr>Egress := [(example_rule ''allow'')\<lparr>Destination := ''@mynet/mypeer''\<rparr>]\<rparr>"

definition example_peers :: "NetworkPeerConnection \<rightharpoonup> int" where
  "example_peers = [\<lparr>NetworkName = ''mynet'', PeerName = ''mypeer''\<rparr> \<mapsto> 12]"

definition example_keep_nb :: NB where
  "example_keep_nb =
     example_nb [(''incus_acl7'', example_group []), (''incus_acl7_net3'', example_group []),
                 (''incus_acl8'', example_group [])] []"

section \<open>Properties of the compiler\<close>

lemmas compile_defs =
  ovnApplyToPortGroup_rules_def loadAddressSetIDs_def extractAddressSets_def convertACLRules_def
  convertACLRule_def ovnRuleCriteriaToOVNACLRule_def subjectParts_def protocolParts_def
  directionAnchor_def actionAndPriority_def replaceAddressSetNames_def
  ovnRuleSubjectToOVNACLMatch_def ovnRuleSubjectToOVNACLMatch_body_def
  ovnRulePortToOVNACLMatch_def portCriterionMatch_def defaultRule_def
  SplitNTrimSpace_def TrimSpace_def isSpace_def SplitN2_def HasPrefix_def CutPrefix_def
  TrimPrefix_def ipProtocol_def
  ovnACLPriorityPortGroupDefaultAction_def ovnACLPriorityPortGroupAllow_def
  ovnACLPriorityPortGroupReject_def ovnACLPriorityPortGroupDrop_def
  example_env_def example_rule_def example_acl_def

lemma cutAt_takeWhile:
  "cutAt s sep =
     (if sep \<in> set s
      then Some (takeWhile (\<lambda>c. c \<noteq> sep) s, tl (dropWhile (\<lambda>c. c \<noteq> sep) s))
      else None)"
  by (induction s) auto

lemma SplitN2_cutAt:
  "SplitN2 s sep = (case cutAt s sep of None \<Rightarrow> [s] | Some (a, b) \<Rightarrow> [a, b])"
  by (simp add: SplitN2_def cutAt_takeWhile)

lemma portCriterionMatch_spec: "portCriterionMatch proto dir = spec_portPredicate proto dir"
  by (rule ext) (simp add: portCriterionMatch_def spec_portPredicate_def SplitN2_cutAt Let_def
      split: option.splits)

lemma protocolParts_tcp_udp:
  assumes "Protocol rule = ''tcp'' \<or> Protocol rule = ''udp''"
  shows "protocolParts rule =
           [Protocol rule] @ spec_portPredicates (Protocol rule) ''src'' (SourcePort rule) @
           spec_portPredicates (Protocol rule) ''dst'' (DestinationPort rule)"
  using assms
  by (auto simp: protocolParts_def spec_portPredicates_def ovnRulePortToOVNACLMatch_def
      portCriterionMatch_spec)

lemma subjectParts_cases:
  assumes "subjectParts env dir ids peers subject = Inr (parts, ns, needed)"
  shows "(subject = [] \<and> parts = []) \<or>
         (subject \<noteq> [] \<and>
          (\<exists>m. ovnRuleSubjectToOVNACLMatch env dir ids peers (SplitNTrimSpace subject CHR '','' False) =
                  Inr (m, ns, needed) \<and> parts = [m]))"
  using assms by (auto simp: subjectParts_def split: if_splits sum.splits)

lemma ovnRuleCriteriaToOVNACLRule_Inr:
  assumes "ovnRuleCriteriaToOVNACLRule env direction rule pg ids peers = Inr (r, ns, needed)"
  shows "\<exists>src ns1 np1 dst ns2 np2.
           subjectParts env ''src'' ids peers (Source rule) = Inr (src, ns1, np1) \<and>
           subjectParts env ''dst'' ids peers (Destination rule) = Inr (dst, ns2, np2) \<and>
           r = \<lparr>Direction = ''to-lport'',
                OVNAction = fst (actionAndPriority (Action rule)),
                Priority = snd (actionAndPriority (Action rule)),
                Match = ''('' @ Join ([directionAnchor direction pg] @ src @ dst @ protocolParts rule)
                                 '') && ('' @ '')'',
                Log = False, LogName = []\<rparr> \<and>
           ns = (ns1 \<or> ns2) \<and> needed = np1 @ np2"
proof (cases "subjectParts env ''src'' ids peers (Source rule)")
  case (Inl e)
  with assms show ?thesis by (simp add: ovnRuleCriteriaToOVNACLRule_def)
next
  case s: (Inr x)
  obtain src ns1 np1 where x: "x = (src, ns1, np1)" by (cases x) auto
  show ?thesis
  proof (cases "subjectParts env ''dst'' ids peers (Destination rule)")
    case (Inl e)
    with assms s x show ?thesis by (simp add: ovnRuleCriteriaToOVNACLRule_def)
  next
    case d: (Inr y)
    obtain dst ns2 np2 where y: "y = (dst, ns2, np2)" by (cases y) auto
    from assms s x d y show ?thesis
      by (simp add: ovnRuleCriteriaToOVNACLRule_def Let_def)
  qed
qed

lemma forEach_invariant:
  assumes "P acc"
    and "\<And>x a a'. x \<in> set xs \<Longrightarrow> P a \<Longrightarrow> body x a = Inr a' \<Longrightarrow> P a'"
    and "forEach body xs acc = Inr acc'"
  shows "P acc'"
  using assms
proof (induction xs arbitrary: acc)
  case Nil
  then show ?case by simp
next
  case (Cons x xs)
  from Cons.prems(3) obtain a where b: "body x acc = Inr a" and f: "forEach body xs a = Inr acc'"
    by (auto split: sum.splits)
  have "P a" using Cons.prems(1,2) b by auto
  then show ?case using Cons.IH[OF _ _ f] Cons.prems(2) by auto
qed

lemma convertACLRule_enabled:
  assumes "State rule \<noteq> ''disabled''"
    and "convertACLRule env pg ids peers sets direction (i, rule) (pgRules, netRules, needed) =
           Inr (pgRules', netRules', needed')"
  shows "\<exists>r. ((pgRules' = pgRules @ [r] \<and> netRules' = netRules) \<or>
              (pgRules' = pgRules \<and> netRules' = netRules @ [r])) \<and>
             OVNAction r = fst (actionAndPriority (Action rule)) \<and>
             Priority r = snd (actionAndPriority (Action rule))"
proof -
  let ?rule' = "rule\<lparr>Source := replaceAddressSetNames (Source rule) sets,
                Destination := replaceAddressSetNames (Destination rule) sets\<rparr>"
  show ?thesis
  proof (cases "ovnRuleCriteriaToOVNACLRule env direction ?rule' pg ids peers")
    case (Inl e)
    with assms show ?thesis by (simp add: convertACLRule_def)
  next
    case (Inr x)
    obtain r0 ns np where x: "x = (r0, ns, np)" by (cases x) auto
    from ovnRuleCriteriaToOVNACLRule_Inr[OF Inr[unfolded x]]
    have a: "OVNAction r0 = fst (actionAndPriority (Action rule))"
      and p: "Priority r0 = snd (actionAndPriority (Action rule))" by auto
    from assms Inr x a p show ?thesis
      by (auto simp: convertACLRule_def Let_def split: if_splits)
  qed
qed

lemma convertACLRule_disabled:
  "State rule = ''disabled'' \<Longrightarrow>
   convertACLRule env pg ids peers sets direction (i, rule) acc = Inr acc"
  by (simp add: convertACLRule_def split: prod.splits)

lemma actionAndPriority_range: "snd (actionAndPriority a) \<in> {0, 300, 400, 500}"
  by (simp add: actionAndPriority_def ovnACLPriorityPortGroupAllow_def
      ovnACLPriorityPortGroupReject_def ovnACLPriorityPortGroupDrop_def)

lemma actionAndPriority_valid: "a \<in> set ValidActions \<Longrightarrow> snd (actionAndPriority a) \<noteq> 0"
  by (auto simp: actionAndPriority_def ValidActions_def ovnACLPriorityPortGroupAllow_def
      ovnACLPriorityPortGroupReject_def ovnACLPriorityPortGroupDrop_def)

lemma convertACLRule_prioritiesOK:
  assumes "prioritiesOK acc" and "convertACLRule env pg ids peers sets direction x acc = Inr acc'"
  shows "prioritiesOK acc'"
proof -
  obtain i rule where x: "x = (i, rule)" by (cases x) auto
  obtain pgRules netRules needed where acc: "acc = (pgRules, netRules, needed)" by (cases acc) auto
  obtain pgRules' netRules' needed' where acc': "acc' = (pgRules', netRules', needed')"
    by (cases acc') auto
  show ?thesis
  proof (cases "State rule = ''disabled''")
    case True
    with assms x show ?thesis by (simp add: convertACLRule_disabled)
  next
    case False
    from convertACLRule_enabled[OF False assms(2)[unfolded x acc acc']] obtain r where
      "(pgRules' = pgRules @ [r] \<and> netRules' = netRules) \<or>
       (pgRules' = pgRules \<and> netRules' = netRules @ [r])"
      and "Priority r = snd (actionAndPriority (Action rule))" by blast
    with assms(1) actionAndPriority_range[of "Action rule"] show ?thesis
      unfolding acc acc' prioritiesOK_def by auto
  qed
qed

lemma convertACLRule_nonZero:
  assumes "nonZero acc" and "convertACLRule env pg ids peers sets direction x acc = Inr acc'"
    and "State (snd x) \<noteq> ''disabled'' \<Longrightarrow> Action (snd x) \<in> set ValidActions"
  shows "nonZero acc'"
proof -
  obtain i rule where x: "x = (i, rule)" by (cases x) auto
  obtain pgRules netRules needed where acc: "acc = (pgRules, netRules, needed)" by (cases acc) auto
  obtain pgRules' netRules' needed' where acc': "acc' = (pgRules', netRules', needed')"
    by (cases acc') auto
  show ?thesis
  proof (cases "State rule = ''disabled''")
    case True
    with assms x show ?thesis by (simp add: convertACLRule_disabled)
  next
    case False
    from convertACLRule_enabled[OF False assms(2)[unfolded x acc acc']] obtain r where
      "(pgRules' = pgRules @ [r] \<and> netRules' = netRules) \<or>
       (pgRules' = pgRules \<and> netRules' = netRules @ [r])"
      and "Priority r = snd (actionAndPriority (Action rule))" by blast
    moreover have "snd (actionAndPriority (Action rule)) \<noteq> 0"
      using assms(3) False x by (simp add: actionAndPriority_valid)
    ultimately show ?thesis using assms(1)
      unfolding acc acc' nonZero_def by auto
  qed
qed

lemma convertACLRules_prioritiesOK:
  assumes "prioritiesOK acc"
    and "convertACLRules env pg ids peers sets direction rules acc = Inr acc'"
  shows "prioritiesOK acc'"
proof -
  have step: "\<And>x a a'. x \<in> set (zip [0 ..< length rules] rules) \<Longrightarrow> prioritiesOK a \<Longrightarrow>
      convertACLRule env pg ids peers sets direction x a = Inr a' \<Longrightarrow> prioritiesOK a'"
    using convertACLRule_prioritiesOK by blast
  from assms(2) have f: "forEach (convertACLRule env pg ids peers sets direction)
      (zip [0 ..< length rules] rules) acc = Inr acc'"
    by (simp add: convertACLRules_def)
  show ?thesis by (rule forEach_invariant[where P = prioritiesOK, OF assms(1) step f])
qed

lemma convertACLRules_nonZero:
  assumes "nonZero acc"
    and "convertACLRules env pg ids peers sets direction rules acc = Inr acc'"
    and valid: "\<And>rule. rule \<in> set rules \<Longrightarrow> State rule \<noteq> ''disabled'' \<Longrightarrow> Action rule \<in> set ValidActions"
  shows "nonZero acc'"
proof -
  have step: "\<And>x a a'. x \<in> set (zip [0 ..< length rules] rules) \<Longrightarrow> nonZero a \<Longrightarrow>
      convertACLRule env pg ids peers sets direction x a = Inr a' \<Longrightarrow> nonZero a'"
  proof -
    fix x a a'
    assume xin: "x \<in> set (zip [0 ..< length rules] rules)" and nz: "nonZero a"
      and c: "convertACLRule env pg ids peers sets direction x a = Inr a'"
    obtain i rule where x: "x = (i, rule)" by (cases x) auto
    have "rule \<in> set rules" using xin unfolding x by (rule set_zip_rightD)
    then have "snd x \<in> set rules" by (simp add: x)
    then show "nonZero a'" using convertACLRule_nonZero[OF nz c] valid by blast
  qed
  from assms(2) have f: "forEach (convertACLRule env pg ids peers sets direction)
      (zip [0 ..< length rules] rules) acc = Inr acc'"
    by (simp add: convertACLRules_def)
  show ?thesis by (rule forEach_invariant[where P = nonZero, OF assms(1) step f])
qed

lemma actionAndPriority_zero:
  "snd (actionAndPriority a) = 0 \<Longrightarrow> fst (actionAndPriority a) = []"
  by (auto simp: actionAndPriority_def ovnACLPriorityPortGroupAllow_def
      ovnACLPriorityPortGroupReject_def ovnACLPriorityPortGroupDrop_def split: if_splits)

lemma convertACLRule_zeroUnset:
  assumes "zeroUnset acc" and "convertACLRule env pg ids peers sets direction x acc = Inr acc'"
  shows "zeroUnset acc'"
proof -
  obtain i rule where x: "x = (i, rule)" by (cases x) auto
  obtain pgRules netRules needed where acc: "acc = (pgRules, netRules, needed)" by (cases acc) auto
  obtain pgRules' netRules' needed' where acc': "acc' = (pgRules', netRules', needed')"
    by (cases acc') auto
  show ?thesis
  proof (cases "State rule = ''disabled''")
    case True
    with assms x show ?thesis by (simp add: convertACLRule_disabled)
  next
    case False
    from convertACLRule_enabled[OF False assms(2)[unfolded x acc acc']] obtain r where
      "(pgRules' = pgRules @ [r] \<and> netRules' = netRules) \<or>
       (pgRules' = pgRules \<and> netRules' = netRules @ [r])"
      and "OVNAction r = fst (actionAndPriority (Action rule))"
      and "Priority r = snd (actionAndPriority (Action rule))" by blast
    with assms(1) actionAndPriority_zero[of "Action rule"] show ?thesis
      unfolding acc acc' zeroUnset_def by auto
  qed
qed

lemma convertACLRules_zeroUnset:
  assumes "zeroUnset acc"
    and "convertACLRules env pg ids peers sets direction rules acc = Inr acc'"
  shows "zeroUnset acc'"
proof -
  have step: "\<And>x a a'. x \<in> set (zip [0 ..< length rules] rules) \<Longrightarrow> zeroUnset a \<Longrightarrow>
      convertACLRule env pg ids peers sets direction x a = Inr a' \<Longrightarrow> zeroUnset a'"
    using convertACLRule_zeroUnset by blast
  from assms(2) have f: "forEach (convertACLRule env pg ids peers sets direction)
      (zip [0 ..< length rules] rules) acc = Inr acc'"
    by (simp add: convertACLRules_def)
  show ?thesis by (rule forEach_invariant[where P = zeroUnset, OF assms(1) step f])
qed

lemma ovnApplyToPortGroup_rules_Inr:
  assumes "ovnApplyToPortGroup_rules env addressSets aclInfo pg ids peers = Inr (pgRules, netRules, needed)"
  shows "\<exists>sets acc1 pg0.
           convertACLRules env pg ids peers sets ''ingress'' (Ingress aclInfo) ([], [], []) = Inr acc1 \<and>
           convertACLRules env pg ids peers sets ''egress'' (Egress aclInfo) acc1 =
             Inr (pg0, netRules, needed) \<and>
           pgRules = pg0 @ [defaultRule pg]"
proof (cases "loadAddressSetIDs addressSets
                (remdups (extractAddressSets (Ingress aclInfo) @ extractAddressSets (Egress aclInfo)))")
  case (Inl e)
  with assms show ?thesis by (simp add: ovnApplyToPortGroup_rules_def)
next
  case l: (Inr sets)
  show ?thesis
  proof (cases "convertACLRules env pg ids peers sets ''ingress'' (Ingress aclInfo) ([], [], [])")
    case (Inl e)
    with assms l show ?thesis by (simp add: ovnApplyToPortGroup_rules_def)
  next
    case i: (Inr acc1)
    show ?thesis
    proof (cases "convertACLRules env pg ids peers sets ''egress'' (Egress aclInfo) acc1")
      case (Inl e)
      with assms l i show ?thesis by (simp add: ovnApplyToPortGroup_rules_def)
    next
      case e: (Inr acc2)
      obtain pg0 net0 np0 where acc2: "acc2 = (pg0, net0, np0)" by (cases acc2) auto
      from assms l i e acc2 have "pgRules = pg0 @ [defaultRule pg]" "net0 = netRules" "np0 = needed"
        by (simp_all add: ovnApplyToPortGroup_rules_def)
      with i e acc2 show ?thesis by blast
    qed
  qed
qed

text \<open>Evaluations of the compiler on the example inputs.\<close>

lemma ex_allow:
  "convertACLRule example_env ''incus_acl7'' Map.empty Map.empty Map.empty ''ingress''
     (0, example_rule ''allow'') ([], [], []) =
   Inr ([\<lparr>Direction = ''to-lport'', OVNAction = ''allow-related'', Priority = 300,
          Match = ''(outport == @incus_acl7)'', Log = False, LogName = []\<rparr>], [], [])"
  by (simp add: compile_defs)

lemma ex_allow_stateless:
  "convertACLRule example_env ''incus_acl7'' Map.empty Map.empty Map.empty ''ingress''
     (0, example_rule ''allow-stateless'') ([], [], []) =
   Inr ([\<lparr>Direction = ''to-lport'', OVNAction = ''allow-stateless'', Priority = 300,
          Match = ''(outport == @incus_acl7)'', Log = False, LogName = []\<rparr>], [], [])"
  by (simp add: compile_defs)

lemma ex_udp:
  "ovnRuleCriteriaToOVNACLRule example_env ''ingress'' example_udp_rule ''incus_acl7''
     Map.empty Map.empty =
   Inr (\<lparr>Direction = ''to-lport'', OVNAction = ''allow-related'', Priority = 300,
         Match = ''(outport == @incus_acl7) && (udp) && (udp.src == 53 || (udp.src >= 1000 && udp.src <= 2000))'',
         Log = False, LogName = []\<rparr>, False, [])"
  by (simp add: compile_defs example_udp_rule_def)

lemma ex_tcp_acl:
  "ovnApplyToPortGroup_rules example_env Map.empty (example_acl [example_tcp_rule] [])
     ''incus_acl7'' Map.empty Map.empty =
   Inr ([\<lparr>Direction = ''to-lport'', OVNAction = ''allow-related'', Priority = 300,
          Match = ''(outport == @incus_acl7) && (tcp) && (tcp.dst == 80)'', Log = False, LogName = []\<rparr>,
         \<lparr>Direction = ''to-lport'', OVNAction = ''drop'', Priority = 0,
          Match = ''(inport == @incus_acl7 || outport == @incus_acl7)'', Log = False,
          LogName = ''incus_acl7''\<rparr>], [], [])"
  by (simp add: compile_defs example_tcp_rule_def)


text \<open>
  Claim C8. For a rule whose state is not disabled and that compiles, the conversion
  step emits one OVN rule, to the port group rules or to the network rules; its
  action is \<open>allow-related\<close> when the rule's action is \<open>allow\<close>, and
  \<open>allow-stateless\<close> when the rule's action is \<open>allow-stateless\<close>.
\<close>

theorem allow_becomes_allow_related:
  assumes "State rule \<noteq> ''disabled''"
    and "convertACLRule env pg ids peers sets direction (i, rule) (pgRules, netRules, needed) =
           Inr (pgRules', netRules', needed')"
  shows "\<exists>r. ((pgRules' = pgRules @ [r] \<and> netRules' = netRules) \<or>
              (pgRules' = pgRules \<and> netRules' = netRules @ [r])) \<and>
             (Action rule = ''allow'' \<longrightarrow> OVNAction r = ''allow-related'') \<and>
             (Action rule = ''allow-stateless'' \<longrightarrow> OVNAction r = ''allow-stateless'')"
proof -
  from convertACLRule_enabled[OF assms] obtain r where
    r: "(pgRules' = pgRules @ [r] \<and> netRules' = netRules) \<or>
        (pgRules' = pgRules \<and> netRules' = netRules @ [r])"
    and a: "OVNAction r = fst (actionAndPriority (Action rule))" by blast
  have "Action rule = ''allow'' \<longrightarrow> OVNAction r = ''allow-related''"
    using a by (simp add: actionAndPriority_def)
  moreover have "Action rule = ''allow-stateless'' \<longrightarrow> OVNAction r = ''allow-stateless''"
    using a by (simp add: actionAndPriority_def)
  ultimately show ?thesis using r by blast
qed

text \<open>The two cases of C8 on rules that compile: an allow and an allow-stateless rule.\<close>

theorem allow_becomes_allow_related_witness:
  "State (example_rule ''allow'') \<noteq> ''disabled'' \<and>
   (\<exists>r. convertACLRule example_env ''incus_acl7'' Map.empty Map.empty Map.empty ''ingress''
           (0, example_rule ''allow'') ([], [], []) = Inr ([r], [], []) \<and>
        OVNAction r = ''allow-related'') \<and>
   State (example_rule ''allow-stateless'') \<noteq> ''disabled'' \<and>
   (\<exists>r. convertACLRule example_env ''incus_acl7'' Map.empty Map.empty Map.empty ''ingress''
           (0, example_rule ''allow-stateless'') ([], [], []) = Inr ([r], [], []) \<and>
        OVNAction r = ''allow-stateless'')"
proof -
  have s1: "State (example_rule ''allow'') \<noteq> ''disabled''" by (simp add: example_rule_def)
  have s2: "State (example_rule ''allow-stateless'') \<noteq> ''disabled''"
    by (simp add: example_rule_def)
  have a1: "Action (example_rule ''allow'') = ''allow''" by (simp add: example_rule_def)
  have a2: "Action (example_rule ''allow-stateless'') = ''allow-stateless''"
    by (simp add: example_rule_def)
  from allow_becomes_allow_related[OF s1 ex_allow] a1 ex_allow
  have "\<exists>r. convertACLRule example_env ''incus_acl7'' Map.empty Map.empty Map.empty ''ingress''
           (0, example_rule ''allow'') ([], [], []) = Inr ([r], [], []) \<and>
        OVNAction r = ''allow-related''" by auto
  moreover from allow_becomes_allow_related[OF s2 ex_allow_stateless] a2 ex_allow_stateless
  have "\<exists>r. convertACLRule example_env ''incus_acl7'' Map.empty Map.empty Map.empty ''ingress''
           (0, example_rule ''allow-stateless'') ([], [], []) = Inr ([r], [], []) \<and>
        OVNAction r = ''allow-stateless''" by auto
  ultimately show ?thesis using s1 s2 by blast
qed

text \<open>
  Claim C7 says that a rule whose action is not one of allow, allow-stateless, reject
  and drop makes the compilation fail. The action switch has no default case: on the
  action \<open>foo\<close> the rule compiles, to an OVN rule with an empty action and priority 0.
\<close>

theorem unknown_action_compiles:
  "ovnRuleCriteriaToOVNACLRule example_env ''ingress'' (example_rule ''foo'') ''incus_acl7''
     Map.empty Map.empty =
   Inr (\<lparr>Direction = ''to-lport'', OVNAction = [], Priority = 0,
         Match = ''(outport == @incus_acl7)'', Log = False, LogName = []\<rparr>, False, [])"
  by (simp add: compile_defs)

text \<open>
  Claim C2. For a rule with protocol tcp or udp that compiles, in direction ingress
  or egress, the match is the list of match parts joined by \<open>) && (\<close> inside outer
  parentheses: first the directional anchor (\<open>outport == @PG\<close> for ingress,
  \<open>inport == @PG\<close> for egress), then the subject fragment of the source and that of
  the destination when they are not empty, then the protocol, then the port
  predicates of the source ports and of the destination ports as the spec words
  them (\<open>spec_portPredicates\<close>).
\<close>

theorem tcp_udp_match:
  assumes proto: "Protocol rule = ''tcp'' \<or> Protocol rule = ''udp''"
    and dir: "direction = ''ingress'' \<or> direction = ''egress''"
    and ok: "ovnRuleCriteriaToOVNACLRule env direction rule pg ids peers = Inr (r, ns, needed)"
  shows "\<exists>src dst ns1 ns2 np1 np2.
           Match r =
             ''('' @
             Join ([if direction = ''ingress'' then ''outport == @'' @ pg else ''inport == @'' @ pg] @
                   src @ dst @ [Protocol rule] @
                   spec_portPredicates (Protocol rule) ''src'' (SourcePort rule) @
                   spec_portPredicates (Protocol rule) ''dst'' (DestinationPort rule))
               '') && ('' @
             '')'' \<and>
           ((Source rule = [] \<and> src = []) \<or>
            (Source rule \<noteq> [] \<and>
             ovnRuleSubjectToOVNACLMatch env ''src'' ids peers
               (SplitNTrimSpace (Source rule) CHR '','' False) = Inr (hd src, ns1, np1) \<and>
             length src = 1)) \<and>
           ((Destination rule = [] \<and> dst = []) \<or>
            (Destination rule \<noteq> [] \<and>
             ovnRuleSubjectToOVNACLMatch env ''dst'' ids peers
               (SplitNTrimSpace (Destination rule) CHR '','' False) = Inr (hd dst, ns2, np2) \<and>
             length dst = 1))"
proof -
  from ovnRuleCriteriaToOVNACLRule_Inr[OF ok] obtain src ns1 np1 dst ns2 np2 where
    s: "subjectParts env ''src'' ids peers (Source rule) = Inr (src, ns1, np1)"
    and d: "subjectParts env ''dst'' ids peers (Destination rule) = Inr (dst, ns2, np2)"
    and r: "r = \<lparr>Direction = ''to-lport'',
                OVNAction = fst (actionAndPriority (Action rule)),
                Priority = snd (actionAndPriority (Action rule)),
                Match = ''('' @ Join ([directionAnchor direction pg] @ src @ dst @ protocolParts rule)
                                 '') && ('' @ '')'',
                Log = False, LogName = []\<rparr>"
    by blast
  have a: "directionAnchor direction pg =
           (if direction = ''ingress'' then ''outport == @'' @ pg else ''inport == @'' @ pg)"
    using dir by (auto simp: directionAnchor_def)
  have m: "Match r = ''('' @ Join ([directionAnchor direction pg] @ src @ dst @ protocolParts rule)
                                 '') && ('' @ '')''"
    by (subst r) simp
  have m': "Match r = ''('' @
             Join ([if direction = ''ingress'' then ''outport == @'' @ pg else ''inport == @'' @ pg] @
                   src @ dst @ [Protocol rule] @
                   spec_portPredicates (Protocol rule) ''src'' (SourcePort rule) @
                   spec_portPredicates (Protocol rule) ''dst'' (DestinationPort rule))
               '') && ('' @ '')''"
    unfolding m a protocolParts_tcp_udp[OF proto] ..
  from subjectParts_cases[OF s]
  have s': "(Source rule = [] \<and> src = []) \<or>
            (Source rule \<noteq> [] \<and>
             ovnRuleSubjectToOVNACLMatch env ''src'' ids peers
               (SplitNTrimSpace (Source rule) CHR '','' False) = Inr (hd src, ns1, np1) \<and>
             length src = 1)" by auto
  from subjectParts_cases[OF d]
  have d': "(Destination rule = [] \<and> dst = []) \<or>
            (Destination rule \<noteq> [] \<and>
             ovnRuleSubjectToOVNACLMatch env ''dst'' ids peers
               (SplitNTrimSpace (Destination rule) CHR '','' False) = Inr (hd dst, ns2, np2) \<and>
             length dst = 1)" by auto
  show ?thesis
    apply (rule exI[of _ src], rule exI[of _ dst], rule exI[of _ ns1], rule exI[of _ ns2],
           rule exI[of _ np1], rule exI[of _ np2])
    using m' s' d' by (intro conjI)
qed

text \<open>The second scenario of the spec: ingress, udp, source ports \<open>53,1000-2000\<close>.\<close>

theorem tcp_udp_match_witness:
  "\<exists>r ns needed.
     ovnRuleCriteriaToOVNACLRule example_env ''ingress'' example_udp_rule ''incus_acl7''
       Map.empty Map.empty = Inr (r, ns, needed) \<and>
     Match r =
       ''(outport == @incus_acl7) && (udp) && (udp.src == 53 || (udp.src >= 1000 && udp.src <= 2000))''"
proof -
  have proto: "Protocol example_udp_rule = ''tcp'' \<or> Protocol example_udp_rule = ''udp''"
    by (simp add: example_udp_rule_def example_rule_def)
  have dir: "''ingress'' = ''ingress'' \<or> ''ingress'' = ''egress''" by simp
  have src: "Source example_udp_rule = []" and dst: "Destination example_udp_rule = []"
    by (simp_all add: example_udp_rule_def example_rule_def)
  have ports:
    "spec_portPredicates (Protocol example_udp_rule) ''src'' (SourcePort example_udp_rule) =
       [''udp.src == 53 || (udp.src >= 1000 && udp.src <= 2000)'']"
    "spec_portPredicates (Protocol example_udp_rule) ''dst'' (DestinationPort example_udp_rule) = []"
    by (simp_all add: spec_portPredicates_def spec_portPredicate_def example_udp_rule_def
        example_rule_def SplitNTrimSpace_def TrimSpace_def isSpace_def)
  have p: "Protocol example_udp_rule = ''udp''"
    by (simp add: example_udp_rule_def example_rule_def)
  from tcp_udp_match[OF proto dir ex_udp] src dst
  have m: "Match \<lparr>Direction = ''to-lport'', OVNAction = ''allow-related'', Priority = 300,
         Match = ''(outport == @incus_acl7) && (udp) && (udp.src == 53 || (udp.src >= 1000 && udp.src <= 2000))'',
         Log = False, LogName = []\<rparr> =
       ''('' @ Join ([''outport == @'' @ ''incus_acl7''] @ [] @ [] @ [''udp''] @
                   [''udp.src == 53 || (udp.src >= 1000 && udp.src <= 2000)''] @ [])
              '') && ('' @ '')''"
    unfolding ports p by auto
  show ?thesis
    apply (intro exI conjI)
     apply (rule ex_udp)
    using m by simp
qed

text \<open>
  Claim C1 says that the port group rule list of every ACL that is compiled holds
  exactly one rule of priority 0, the default drop rule. The action switch of
  \<open>ovnRuleCriteriaToOVNACLRule\<close> has no default case, so a rule whose action is none
  of the four keeps the zero values of the action and of the priority (the slip of
  claim C7; \<open>OVNApplyInstanceNICDefaultRules\<close> does reject such an action). On an ACL
  with one enabled ingress rule whose action is \<open>foo\<close>, the port group rule list has
  two rules of priority 0: the compiled rule, with an empty action, and the default
  rule.
\<close>

theorem unknown_action_second_priority_zero_rule:
  "ovnApplyToPortGroup_rules example_env Map.empty (example_acl [example_rule ''foo''] [])
     ''incus_acl7'' Map.empty Map.empty =
   Inr ([\<lparr>Direction = ''to-lport'', OVNAction = [], Priority = 0,
          Match = ''(outport == @incus_acl7)'', Log = False, LogName = []\<rparr>,
         \<lparr>Direction = ''to-lport'', OVNAction = ''drop'', Priority = 0,
          Match = ''(inport == @incus_acl7 || outport == @incus_acl7)'', Log = False,
          LogName = ''incus_acl7''\<rparr>], [], [])"
  by (simp add: compile_defs)

text \<open>
  What does hold of every ACL that compiles, whatever the actions of its rules:
  every rule handed to OVN has a priority among 0, 300, 400 and 500; the port group
  rule list ends with the default rule; and the default rule is the only rule of
  priority 0 whose action is drop. When moreover every rule that is not disabled
  has one of the four valid actions, the default rule is the only rule of
  priority 0.
\<close>

lemma compiled_rules:
  assumes ok: "ovnApplyToPortGroup_rules env addressSets aclInfo pg ids peers =
                 Inr (pgRules, netRules, needed)"
  shows "list_all (\<lambda>r. Priority r \<in> {0, 300, 400, 500}) (pgRules @ netRules)"
    and "pgRules \<noteq> [] \<and> last pgRules = defaultRule pg"
    and "filter (\<lambda>r. Priority r = 0 \<and> OVNAction r = ''drop'') (pgRules @ netRules) = [defaultRule pg]"
    and "list_all (\<lambda>rule. State rule = ''disabled'' \<or> Action rule \<in> set ValidActions)
            (Ingress aclInfo @ Egress aclInfo) \<Longrightarrow>
         filter (\<lambda>r. Priority r = 0) (pgRules @ netRules) = [defaultRule pg]"
proof -
  from ovnApplyToPortGroup_rules_Inr[OF ok] obtain sets acc1 pg0 where
    i: "convertACLRules env pg ids peers sets ''ingress'' (Ingress aclInfo) ([], [], []) = Inr acc1"
    and e: "convertACLRules env pg ids peers sets ''egress'' (Egress aclInfo) acc1 =
             Inr (pg0, netRules, needed)"
    and p: "pgRules = pg0 @ [defaultRule pg]" by blast
  have p0: "prioritiesOK ([], [], [])" by (simp add: prioritiesOK_def)
  have "prioritiesOK (pg0, netRules, needed)"
    using convertACLRules_prioritiesOK[OF convertACLRules_prioritiesOK[OF p0 i] e] .
  then show "list_all (\<lambda>r. Priority r \<in> {0, 300, 400, 500}) (pgRules @ netRules)"
    by (simp add: prioritiesOK_def p defaultRule_def ovnACLPriorityPortGroupDefaultAction_def)
  show "pgRules \<noteq> [] \<and> last pgRules = defaultRule pg" by (simp add: p)
  have z0: "zeroUnset ([], [], [])" by (simp add: zeroUnset_def)
  have "zeroUnset (pg0, netRules, needed)"
    using convertACLRules_zeroUnset[OF convertACLRules_zeroUnset[OF z0 i] e] .
  then have a: "filter (\<lambda>r. Priority r = 0 \<and> OVNAction r = ''drop'') pg0 = []"
    and b: "filter (\<lambda>r. Priority r = 0 \<and> OVNAction r = ''drop'') netRules = []"
    by (auto simp: zeroUnset_def list_all_iff filter_empty_conv)
  show "filter (\<lambda>r. Priority r = 0 \<and> OVNAction r = ''drop'') (pgRules @ netRules) = [defaultRule pg]"
    by (simp add: p a b defaultRule_def ovnACLPriorityPortGroupDefaultAction_def)
  show "filter (\<lambda>r. Priority r = 0) (pgRules @ netRules) = [defaultRule pg]"
    if valid: "list_all (\<lambda>rule. State rule = ''disabled'' \<or> Action rule \<in> set ValidActions)
            (Ingress aclInfo @ Egress aclInfo)"
  proof -
    have vi: "\<And>rule. rule \<in> set (Ingress aclInfo) \<Longrightarrow> State rule \<noteq> ''disabled'' \<Longrightarrow>
                Action rule \<in> set ValidActions"
      using valid by (auto simp: list_all_iff)
    have ve: "\<And>rule. rule \<in> set (Egress aclInfo) \<Longrightarrow> State rule \<noteq> ''disabled'' \<Longrightarrow>
                Action rule \<in> set ValidActions"
      using valid by (auto simp: list_all_iff)
    have n0: "nonZero ([], [], [])" by (simp add: nonZero_def)
    have n1: "nonZero acc1" using convertACLRules_nonZero[OF n0 i vi] .
    have "nonZero (pg0, netRules, needed)" using convertACLRules_nonZero[OF n1 e ve] .
    then have a: "filter (\<lambda>r. Priority r = 0) pg0 = []"
      and b: "filter (\<lambda>r. Priority r = 0) netRules = []"
      by (auto simp: nonZero_def list_all_iff filter_empty_conv)
    show ?thesis
      by (simp add: p a b defaultRule_def ovnACLPriorityPortGroupDefaultAction_def)
  qed
qed

lemma defaultRule_fields:
  "OVNAction (defaultRule pg) = ''drop''"
  "Priority (defaultRule pg) = 0"
  "Match (defaultRule pg) = ''(inport == @'' @ pg @ '' || outport == @'' @ pg @ '')''"
  by (simp_all add: defaultRule_def ovnACLPriorityPortGroupDefaultAction_def)

section \<open>Properties of the referenced ACLs\<close>

text \<open>
  Claim C5 says that subjects starting with \<open>$\<close>, and subjects starting with \<open>@\<close>
  that contain \<open>/\<close>, are skipped. \<open>ovnAddReferencedACLs\<close> skips the subjects already
  seen, the reserved aliases, the CIDRs and the ranges, and nothing else: the address
  set \<open>$office\<close> and the peer \<open>@mynet/mypeer\<close> are added to the referenced ACLs, next
  to the ACL \<open>db\<close>. In \<open>OVNEnsureACLs\<close> such an entry has no ID, the lookup gives 0, and
  a placeholder port group \<open>incus_acl0\<close> is created for it: ensuring the ACL \<open>a\<close>, of
  ID 1, whose only subject is the address set \<open>$office\<close>, leaves two port groups.
\<close>

theorem address_set_and_peer_subjects_are_referenced:
  "ovnAddReferencedACLs example_env example_subjects_acl [] = [''$office'', ''db'', ''@mynet/mypeer''] \<and>
   map fst (portGroups (snd (OVNEnsureACLs example_env example_office_db ''default'' [''a'' \<mapsto> 1] []
                               [''a''] False (example_nb [] [])))) =
     [''incus_acl0'', ''incus_acl1'']"
  by code_simp

section \<open>Properties of the resource inventory cache\<close>

text \<open>
  Claim C10 says that a call less than 10 seconds after the last run returns the
  cached result, and a later call recomputes. The test of \<open>GetResources\<close> is the other
  way round: with a cache filled at time 0, a call at 5 seconds collects the
  inventory again and refills the cache, and a call at 15 seconds returns the cached
  resources without collecting.
\<close>

theorem cache_answers_only_after_ten_seconds:
  "GetResources (example_collectors 1) (5 * Second) (5 * Second)
     \<lparr>lastResources = Some (example_resources 0), lastRun = 0\<rparr> =
     (Inr (example_resources 1), \<lparr>lastResources = Some (example_resources 1), lastRun = 5 * Second\<rparr>) \<and>
   GetResources (example_collectors 1) (15 * Second) (15 * Second)
     \<lparr>lastResources = Some (example_resources 0), lastRun = 0\<rparr> =
     (Inr (example_resources 0), \<lparr>lastResources = Some (example_resources 0), lastRun = 0\<rparr>)"
  by (simp add: GetResources_def collectResources_def orReturn_def example_collectors_def
      example_resources_def Second_def)

section \<open>Properties of the reaper\<close>

lemma recordOVNUse_subset: "set (fst (recordOVNUse ids netID matched st)) \<subseteq> set (fst st)"
  unfolding recordOVNUse_def
proof (induction matched arbitrary: st)
  case Nil
  then show ?case by simp
next
  case (Cons m ms)
  obtain r u a where st: "st = (r, u, a)" by (cases st) auto
  have "set (fst (fold (\<lambda>matchedACLName (removeACLPortGroups, ovnUsedACLs, aclUsedACLS).
             (removeAll (OVNACLNetworkPortGroupName (lookupID ids matchedACLName) netID)
                (removeAll (OVNACLPortGroupName (lookupID ids matchedACLName))
                   removeACLPortGroups),
              List.insert matchedACLName ovnUsedACLs,
              aclUsedACLS)) ms
          (removeAll (OVNACLNetworkPortGroupName (lookupID ids m) netID)
                (removeAll (OVNACLPortGroupName (lookupID ids m)) r), List.insert m u, a)))
        \<subseteq> set (removeAll (OVNACLNetworkPortGroupName (lookupID ids m) netID)
                (removeAll (OVNACLPortGroupName (lookupID ids m)) r))"
    using Cons.IH by fastforce
  then show ?case by (auto simp: st)
qed

lemma recordACLUse_fst: "fst (recordACLUse userName matched st) = fst st"
  unfolding recordACLUse_def
  by (induction matched arbitrary: st) (auto split: prod.splits)

lemma nicUse_subset:
  "nicUse getNetwork ids usage st = Inr st' \<Longrightarrow> set (fst st') \<subseteq> set (fst st)"
  using recordOVNUse_subset[of ids _ "matchedACLNames usage" st]
  by (auto simp: nicUse_def split: option.splits prod.splits if_splits)

lemma usageFunc_subset:
  assumes "usageFunc getNetwork ids ign ignNic usage st = Inr st'"
  shows "set (fst st') \<subseteq> set (fst st)"
proof (cases "usedByType usage")
  case (UsageInstance name project)
  with assms show ?thesis
    by (auto simp: usageFunc_def split: ignoreUsage.splits if_splits dest: nicUse_subset)
next
  case (UsageNetwork name networkType)
  with assms recordOVNUse_subset[of ids _ "matchedACLNames usage" st] show ?thesis
    by (auto simp: usageFunc_def split: if_splits option.splits prod.splits)
next
  case (UsageProfile name project)
  with assms show ?thesis
    by (auto simp: usageFunc_def split: ignoreUsage.splits if_splits dest: nicUse_subset)
next
  case (UsageNetworkACL name)
  with assms show ?thesis by (auto simp: usageFunc_def recordACLUse_fst)
next
  case UsageOther
  with assms show ?thesis by (simp add: usageFunc_def)
qed

lemma walkUsages_subset:
  assumes "\<And>u s s'. f u s = Inr s' \<Longrightarrow> set (fst s') \<subseteq> set (fst s)"
    and "walkUsages f us s = (e, s')"
  shows "set (fst s') \<subseteq> set (fst s)"
  using assms(2)
proof (induction us arbitrary: s)
  case Nil
  then show ?case by simp
next
  case (Cons u us)
  show ?case
  proof (cases "f u s")
    case (Inl e')
    with Cons.prems show ?thesis by simp
  next
    case (Inr s1)
    with Cons.prems have "walkUsages f us s1 = (e, s')" by simp
    from Cons.IH[OF this] assms(1)[OF Inr] show ?thesis by blast
  qed
qed

lemma UsedBy_subset:
  assumes "\<And>u s s'. f u s = Inr s' \<Longrightarrow> set (fst s') \<subseteq> set (fst s)"
    and "UsedBy f us own s = (e, s')"
  shows "set (fst s') \<subseteq> set (fst s)"
proof -
  obtain e0 s0 where w: "walkUsages f us s = (e0, s0)" by (cases "walkUsages f us s") auto
  with assms(2) have "s' = s0" by (auto simp: UsedBy_def split: option.splits)
  with walkUsages_subset[OF assms(1) w] show ?thesis by simp
qed

lemma removeRemaining_subset: "set (removeRemaining ids st) \<subseteq> set (fst st)"
proof -
  obtain r u a where st: "st = (r, u, a)" by (cases st) auto
  have "set (fold (\<lambda>(aclName, refACLs) remove.
              if usedByOvn u refACLs
              then removeAll (OVNACLPortGroupName (lookupID ids aclName)) remove
              else remove) a r) \<subseteq> set r"
  proof (induction a arbitrary: r)
    case Nil
    then show ?case by simp
  next
    case (Cons x xs)
    obtain n refs where x: "x = (n, refs)" by (cases x) auto
    show ?case using Cons.IH[of r] Cons.IH[of "removeAll (OVNACLPortGroupName (lookupID ids n)) r"]
      by (auto simp: x)
  qed
  then show ?thesis by (simp add: removeRemaining_def st)
qed

lemma DeletePortGroup_keeps:
  assumes "DeletePortGroup names nb = (r, nb')" and "fst entry \<notin> set names"
    and "entry \<in> set (portGroups nb)"
  shows "entry \<in> set (portGroups nb')"
  using assms by (cases "calls nb \<in> set (failing nb)") (auto simp: DeletePortGroup_def call_def)

lemma GetPortGroupsByProject_result:
  assumes "GetPortGroupsByProject projectID nb = (r, nb')"
  shows "portGroups nb' = portGroups nb" and "history nb' = history nb"
  using assms by (auto simp: GetPortGroupsByProject_def call_def split: if_splits)

lemma DeletePortGroup_history:
  assumes "DeletePortGroup names nb = (r, nb')"
  shows "history nb' = history nb \<or> history nb' = history nb @ [PortGroupsDeleted names]"
  using assms by (cases "calls nb \<in> set (failing nb)") (auto simp: DeletePortGroup_def call_def)

text \<open>
  Claim C9. Whatever \<open>OVNPortGroupDeleteIfUnused\<close> returns, a port group whose name
  starts with the port group name \<open>incus_acl<id>\<close> of an ACL listed in \<open>keepACLs\<close> is
  still there afterwards, as it was, and its name is in no deletion the call sent
  to OVN. The ID is the one the ACL has in \<open>aclNameIDs\<close>, built from the ACLs of the
  project (0 when the ACL is not among them).
\<close>

theorem keep_acls_port_groups_are_not_deleted:
  assumes run: "OVNPortGroupDeleteIfUnused db usages usedByError aclProjectName ignoreUsageType
                  ignoreUsageNicName keepACLs nb = (result, nb')"
    and acls: "dbACLIDs db aclProjectName = Some acls"
    and keep: "keepACLName \<in> set keepACLs"
    and pre: "HasPrefix (fst entry) (OVNACLPortGroupName (lookupID (aclNameIDsOf acls) keepACLName))"
    and ent: "entry \<in> set (portGroups nb)"
  shows "entry \<in> set (portGroups nb') \<and>
         fst entry \<notin> set (deletedNames (drop (length (history nb)) (history nb')))"
proof (cases "dbProjectIDs db aclProjectName")
  case None
  with run ent acls show ?thesis by (auto simp: OVNPortGroupDeleteIfUnused_def failWith_def)
next
  case (Some projectID)
  let ?ids = "aclNameIDsOf acls"
  have kp: "hasKeeperPrefix ?ids keepACLs (fst entry)"
    using keep pre by (auto simp: hasKeeperPrefix_def list_ex_iff)
  obtain r1 nb1 where g: "GetPortGroupsByProject projectID nb = (r1, nb1)"
    by (cases "GetPortGroupsByProject projectID nb") auto
  have pg1: "portGroups nb1 = portGroups nb" and h1: "history nb1 = history nb"
    using GetPortGroupsByProject_result[OF g] by simp_all
  show ?thesis
  proof (cases r1)
    case (Inl e)
    with run Some g pg1 h1 ent acls show ?thesis
      by (auto simp: OVNPortGroupDeleteIfUnused_def andThen_def)
  next
    case (Inr portGroupNames)
    let ?cand = "remdups (filter (\<lambda>portGroup. HasPrefix portGroup ovnACLPortGroupPrefix \<and>
                                         \<not> hasKeeperPrefix ?ids keepACLs portGroup) portGroupNames)"
    let ?f = "usageFunc (dbNetworkInAnyState db aclProjectName) ?ids ignoreUsageType ignoreUsageNicName"
    obtain err st where u: "UsedBy ?f usages usedByError (?cand, remdups keepACLs, []) = (err, st)"
      by (cases "UsedBy ?f usages usedByError (?cand, remdups keepACLs, [])") auto
    have "set (fst st) \<subseteq> set ?cand"
      using UsedBy_subset[OF usageFunc_subset u] by simp
    then have "set (removeRemaining ?ids st) \<subseteq> set ?cand"
      using removeRemaining_subset[of ?ids st] by blast
    then have notin: "fst entry \<notin> set (removeRemaining ?ids st)" using kp by auto
    from run Some g Inr u acls have fin:
      "(if usedByFailed err then failWith (the err)
        else if length (removeRemaining ?ids st) > 0
        then DeletePortGroup (removeRemaining ?ids st)
        else succeed ()) nb1 = (result, nb')"
      by (simp add: OVNPortGroupDeleteIfUnused_def andThen_def Let_def)
    show ?thesis
    proof (cases "usedByFailed err")
      case True
      with fin pg1 h1 ent show ?thesis by (auto simp: failWith_def)
    next
      case False
      show ?thesis
      proof (cases "length (removeRemaining ?ids st) > 0")
        case True
        with fin False have "DeletePortGroup (removeRemaining ?ids st) nb1 = (result, nb')" by simp
        from DeletePortGroup_keeps[OF this notin] DeletePortGroup_history[OF this] ent pg1 h1 notin
        show ?thesis by auto
      next
        case f2: False
        with fin False pg1 h1 ent show ?thesis by (auto simp: succeed_def)
      qed
    qed
  qed
qed

text \<open>
  With \<open>web\<close>, of ID 7, to keep and no use of any ACL: \<open>incus_acl7_net3\<close> stays,
  and \<open>incus_acl8\<close> is the one port group deleted.
\<close>

lemma ex_keep_deleted:
  "deletedNames (history (snd (OVNPortGroupDeleteIfUnused (example_db [] [(''web'', 7)]) [] None
      ''default'' IgnoreNothing [] [''web''] example_keep_nb))) = [''incus_acl8'']"
  by code_simp

theorem keep_acls_port_groups_are_not_deleted_witness:
  "(''incus_acl7_net3'', example_group []) \<in>
     set (portGroups (snd (OVNPortGroupDeleteIfUnused (example_db [] [(''web'', 7)]) [] None
            ''default'' IgnoreNothing [] [''web''] example_keep_nb))) \<and>
   deletedNames (history (snd (OVNPortGroupDeleteIfUnused (example_db [] [(''web'', 7)]) [] None
      ''default'' IgnoreNothing [] [''web''] example_keep_nb))) = [''incus_acl8'']"
proof -
  let ?run = "OVNPortGroupDeleteIfUnused (example_db [] [(''web'', 7)]) [] None
            ''default'' IgnoreNothing [] [''web''] example_keep_nb"
  have run: "?run = (fst ?run, snd ?run)" by simp
  have keep: "''web'' \<in> set [''web'']" by simp
  have acls: "dbACLIDs (example_db [] [(''web'', 7)]) ''default'' = Some [(''web'', 7)]"
    by (simp add: example_db_def)
  have pre: "HasPrefix (fst (''incus_acl7_net3'', example_group []))
               (OVNACLPortGroupName (lookupID (aclNameIDsOf [(''web'', 7)]) ''web''))"
    by code_simp
  have ent: "(''incus_acl7_net3'', example_group []) \<in> set (portGroups example_keep_nb)"
    by (simp add: example_keep_nb_def example_nb_def)
  from keep_acls_port_groups_are_not_deleted[OF run acls keep pre ent] ex_keep_deleted
  show ?thesis by simp
qed

section \<open>Properties of the reconciler\<close>

lemma everyRunD: "everyRun R m \<Longrightarrow> m s = (r, s') \<Longrightarrow> R s s'"
  by (auto simp: everyRun_def)

lemma everyRun_succeed:
  assumes "\<And>s. R s s"
  shows "everyRun R (succeed x)"
  using assms by (simp add: everyRun_def succeed_def)

lemma everyRun_failWith:
  assumes "\<And>s. R s s"
  shows "everyRun R (failWith e)"
  using assms by (simp add: everyRun_def failWith_def)

lemma everyRun_andThen:
  assumes trans: "\<And>a b c. R a b \<Longrightarrow> R b c \<Longrightarrow> R a c"
    and m: "everyRun R m" and k: "\<And>x. everyRun R (k x)"
  shows "everyRun R (andThen m k)"
  unfolding everyRun_def
proof (intro allI impI)
  fix s r s'
  assume a: "andThen m k s = (r, s')"
  obtain r1 s1 where m1: "m s = (r1, s1)" by (cases "m s") auto
  have R1: "R s s1" using everyRunD[OF m m1] .
  show "R s s'"
  proof (cases r1)
    case (Inl e)
    with a m1 have "s' = s1" by (simp add: andThen_def)
    with R1 show ?thesis by simp
  next
    case (Inr x)
    with a m1 have "k x s1 = (r, s')" by (simp add: andThen_def)
    from everyRunD[OF k this] R1 show ?thesis by (rule trans[rotated])
  qed
qed

lemma everyRun_forEachRun:
  assumes refl: "\<And>s. R s s"
    and trans: "\<And>a b c. R a b \<Longrightarrow> R b c \<Longrightarrow> R a c"
    and body: "\<And>x acc. everyRun R (body x acc)"
  shows "everyRun R (forEachRun body xs acc)"
  unfolding everyRun_def
proof (intro allI impI)
  fix s r s'
  assume "forEachRun body xs acc s = (r, s')"
  then show "R s s'"
  proof (induction xs arbitrary: acc s)
    case Nil
    then show ?case using refl by simp
  next
    case (Cons x xs)
    obtain r1 s1 where b1: "body x acc s = (r1, s1)" by (cases "body x acc s") auto
    have R1: "R s s1" using everyRunD[OF body b1] .
    show ?case
    proof (cases r1)
      case (Inl e)
      with Cons.prems b1 have "s' = s1" by simp
      with R1 show ?thesis by simp
    next
      case (Inr acc')
      with Cons.prems b1 have "forEachRun body xs acc' s1 = (r, s')" by simp
      from Cons.IH[OF this] R1 show ?thesis by (rule trans[rotated])
    qed
  qed
qed

lemma createdNames_append: "createdNames (a @ b) = createdNames a @ createdNames b"
  by (induction a rule: createdNames.induct) simp_all

lemma applyWrites_append: "applyWrites (a @ b) groups = applyWrites b (applyWrites a groups)"
  by (simp add: applyWrites_def)

lemma applyWrites_Nil: "applyWrites events [] = []"
proof (induction events)
  case Nil
  then show ?case by (simp add: applyWrites_def)
next
  case (Cons ev events)
  then show ?case by (cases ev) (simp_all add: applyWrites_def)
qed

lemma writeRules_filter:
  "filter (\<lambda>entry. P (fst entry)) (writeRules ev groups) =
   writeRules ev (filter (\<lambda>entry. P (fst entry)) groups)"
proof (cases ev)
  case (RulesReplaced name rules)
  show ?thesis unfolding RulesReplaced by (induction groups) simp_all
qed simp_all

lemma applyWrites_filter:
  "filter (\<lambda>entry. P (fst entry)) (applyWrites events groups) =
   applyWrites events (filter (\<lambda>entry. P (fst entry)) groups)"
proof (induction events arbitrary: groups)
  case Nil
  then show ?case by (simp add: applyWrites_def)
next
  case (Cons ev events)
  have "filter (\<lambda>entry. P (fst entry)) (applyWrites (ev # events) groups) =
        filter (\<lambda>entry. P (fst entry)) (applyWrites events (writeRules ev groups))"
    by (simp add: applyWrites_def)
  also have "\<dots> = applyWrites events (filter (\<lambda>entry. P (fst entry)) (writeRules ev groups))"
    by (rule Cons.IH)
  also have "\<dots> = applyWrites (ev # events) (filter (\<lambda>entry. P (fst entry)) groups)"
    by (simp add: applyWrites_def writeRules_filter)
  finally show ?case .
qed

lemma writeRules_untouched:
  assumes "set (replacedNames [ev]) \<subseteq> S"
  shows "filter (\<lambda>entry. fst entry \<notin> S) (writeRules ev groups) =
         filter (\<lambda>entry. fst entry \<notin> S) groups"
proof (cases ev)
  case (RulesReplaced name rules)
  with assms have "name \<in> S" by simp
  then show ?thesis unfolding RulesReplaced by (induction groups) simp_all
qed simp_all

lemma replacedNames_Cons: "replacedNames (ev # events) = replacedNames [ev] @ replacedNames events"
  by (cases ev) simp_all

lemma applyWrites_untouched:
  assumes "set (replacedNames events) \<subseteq> S"
  shows "filter (\<lambda>entry. fst entry \<notin> S) (applyWrites events groups) =
         filter (\<lambda>entry. fst entry \<notin> S) groups"
  using assms
proof (induction events arbitrary: groups)
  case Nil
  then show ?case by (simp add: applyWrites_def)
next
  case (Cons ev events)
  from Cons.prems have one: "set (replacedNames [ev]) \<subseteq> S" and rest: "set (replacedNames events) \<subseteq> S"
    using replacedNames_Cons[of ev events] by auto
  have "filter (\<lambda>entry. fst entry \<notin> S) (applyWrites (ev # events) groups) =
        filter (\<lambda>entry. fst entry \<notin> S) (applyWrites events (writeRules ev groups))"
    by (simp add: applyWrites_def)
  also have "\<dots> = filter (\<lambda>entry. fst entry \<notin> S) (writeRules ev groups)"
    by (rule Cons.IH[OF rest])
  also have "\<dots> = filter (\<lambda>entry. fst entry \<notin> S) groups"
    by (rule writeRules_untouched[OF one])
  finally show ?case .
qed

lemma stripRules_replace:
  "stripRules (map (\<lambda>entry. if fst entry = name
                             then (fst entry, (snd entry)\<lparr>groupRules := rules\<rparr>) else entry) groups) =
   stripRules groups"
  by (induction groups) (simp_all add: stripRules_def)

lemma stripRules_writeRules: "stripRules (writeRules ev groups) = stripRules groups"
  by (cases ev) (simp_all add: stripRules_replace)

lemma stripRules_applyWrites: "stripRules (applyWrites events groups) = stripRules groups"
proof (induction events arbitrary: groups)
  case Nil
  then show ?case by (simp add: applyWrites_def)
next
  case (Cons ev events)
  have "stripRules (applyWrites (ev # events) groups) =
        stripRules (applyWrites events (writeRules ev groups))"
    by (simp add: applyWrites_def)
  then show ?case by (simp add: Cons.IH stripRules_writeRules)
qed

lemma quietStepI:
  assumes "failing nb' = failing nb" and "calls nb \<le> calls nb'"
    and "history nb' = history nb @ events" and "createdNames events = []"
    and "portGroups nb' = applyWrites events (portGroups nb)"
  shows "quietStep nb nb'"
  unfolding quietStep_def using assms by blast

lemma quietStep_refl: "quietStep nb nb"
  by (rule quietStepI[where events = "[]"]) (simp_all add: applyWrites_def)

lemma quietStep_trans:
  assumes "quietStep a b" and "quietStep b c"
  shows "quietStep a c"
proof -
  from assms(1) obtain e1 where
    a: "failing b = failing a" "calls a \<le> calls b" "history b = history a @ e1"
       "createdNames e1 = []" "portGroups b = applyWrites e1 (portGroups a)"
    unfolding quietStep_def by blast
  from assms(2) obtain e2 where
    b: "failing c = failing b" "calls b \<le> calls c" "history c = history b @ e2"
       "createdNames e2 = []" "portGroups c = applyWrites e2 (portGroups b)"
    unfolding quietStep_def by blast
  have le: "calls a \<le> calls c" using a(2) b(2) by simp
  show ?thesis
    by (rule quietStepI[where events = "e1 @ e2"])
       (simp_all add: a(1,3,4,5) b(1,3,4,5) le createdNames_append applyWrites_append)
qed

lemmas quiet_succeed = everyRun_succeed[of quietStep, OF quietStep_refl]
lemmas quiet_failWith = everyRun_failWith[of quietStep, OF quietStep_refl]
lemmas quiet_andThen = everyRun_andThen[of quietStep, OF quietStep_trans]
lemmas quiet_forEachRun = everyRun_forEachRun[of quietStep, OF quietStep_refl quietStep_trans]

lemma quiet_call:
  assumes "quiet operation"
  shows "quiet (call what operation)"
  unfolding everyRun_def
proof (intro allI impI)
  fix nb r nb'
  assume c: "call what operation nb = (r, nb')"
  have tick: "quietStep nb (nb\<lparr>calls := Suc (calls nb)\<rparr>)"
    by (rule quietStepI[where events = "[]"]) (simp_all add: applyWrites_def)
  show "quietStep nb nb'"
  proof (cases "calls nb \<in> set (failing nb)")
    case True
    with c tick show ?thesis by (simp add: call_def)
  next
    case False
    with c have "operation (nb\<lparr>calls := Suc (calls nb)\<rparr>) = (r, nb')" by (simp add: call_def)
    from quietStep_trans[OF tick everyRunD[OF assms this]] show ?thesis .
  qed
qed

lemma quiet_GetPortGroupInfo: "quiet (GetPortGroupInfo name)"
  unfolding GetPortGroupInfo_def
  by (rule quiet_call) (simp add: everyRun_def quietStep_refl)

lemma quiet_UpdatePortGroupACLRules: "quiet (UpdatePortGroupACLRules name matchReplace rules)"
  unfolding UpdatePortGroupACLRules_def
proof (rule quiet_call, unfold everyRun_def, intro allI impI)
  fix nb :: NB and r :: "error + unit" and nb' :: NB
  assume op: "(if name \<notin> set (map fst (portGroups nb))
               then (Inl (ErrNotFound name), nb)
               else (Inr (),
                     nb\<lparr>portGroups :=
                           map (\<lambda>entry.
                                  if fst entry = name
                                  then (fst entry,
                                        (snd entry)\<lparr>groupRules := map (applyMatchReplace matchReplace) rules\<rparr>)
                                  else entry)
                             (portGroups nb),
                        history := history nb @
                           [RulesReplaced name (map (applyMatchReplace matchReplace) rules)]\<rparr>)) = (r, nb')"
  show "quietStep nb nb'"
  proof (cases "name \<notin> set (map fst (portGroups nb))")
    case True
    with op have "nb' = nb" by simp
    then show ?thesis by (simp add: quietStep_refl)
  next
    case False
    with op have nb': "nb' = nb\<lparr>portGroups :=
                           map (\<lambda>entry.
                                  if fst entry = name
                                  then (fst entry,
                                        (snd entry)\<lparr>groupRules := map (applyMatchReplace matchReplace) rules\<rparr>)
                                  else entry)
                             (portGroups nb),
                        history := history nb @
                           [RulesReplaced name (map (applyMatchReplace matchReplace) rules)]\<rparr>"
      by simp
    show ?thesis
      by (rule quietStepI[where events = "[RulesReplaced name (map (applyMatchReplace matchReplace) rules)]"])
         (simp_all add: nb' applyWrites_def)
  qed
qed

lemma quiet_ovnApplyToPortGroup:
  "quiet (ovnApplyToPortGroup env db aclInfo pg ids aclNets peers)"
  unfolding ovnApplyToPortGroup_def
  by (auto split: sum.splits option.splits
      intro!: quiet_failWith quiet_andThen quiet_forEachRun quiet_UpdatePortGroupACLRules)

lemma quiet_loadACL: "quiet (loadACL db project name)"
  unfolding loadACL_def by (auto split: option.splits intro: quiet_failWith quiet_succeed)

lemma quiet_checkPortGroup:
  "quiet (checkPortGroup db project ids aclNets reapply aclName acc)"
  unfolding checkPortGroup_def
  by (auto split: prod.splits
      intro!: quiet_andThen quiet_forEachRun quiet_GetPortGroupInfo quiet_loadACL quiet_succeed)


lemmas preserved_succeed = everyRun_succeed[of "\<lambda>s s'. rollbackInv nb0 s \<longrightarrow> rollbackInv nb0 s'" for nb0, simplified]
lemmas preserved_failWith = everyRun_failWith[of "\<lambda>s s'. rollbackInv nb0 s \<longrightarrow> rollbackInv nb0 s'" for nb0, simplified]

lemma preserved_andThen:
  assumes "preserved nb0 m" and "\<And>x. preserved nb0 (k x)"
  shows "preserved nb0 (andThen m k)"
  by (rule everyRun_andThen[OF _ assms]) blast

lemma preserved_forEachRun:
  assumes "\<And>x acc. preserved nb0 (body x acc)"
  shows "preserved nb0 (forEachRun body xs acc)"
  by (rule everyRun_forEachRun[OF _ _ assms]) blast+

lemma rollbackInvI:
  assumes "failing (client st) = failing nb0"
    and "history (client st) = history nb0 @ events" and "hooks st = createdNames events"
    and "filter (\<lambda>entry. fst entry \<notin> set (hooks st)) (portGroups (client st)) =
           applyWrites events (portGroups nb0)"
  shows "rollbackInv nb0 st"
  unfolding rollbackInv_def using assms by blast

lemma preserved_onClient:
  assumes "quiet m"
  shows "preserved nb0 (onClient m)"
  unfolding everyRun_def
proof (intro allI impI)
  fix st r st'
  assume run: "onClient m st = (r, st')" and inv: "rollbackInv nb0 st"
  obtain nb' where m: "m (client st) = (r, nb')" and st': "st' = st\<lparr>client := nb'\<rparr>"
    using run by (auto simp: onClient_def split: prod.splits)
  from everyRunD[OF assms m] have q: "quietStep (client st) nb'" .
  from q obtain events' where
    f: "failing nb' = failing (client st)"
    and h: "history nb' = history (client st) @ events'" and c: "createdNames events' = []"
    and s: "portGroups nb' = applyWrites events' (portGroups (client st))"
    unfolding quietStep_def by blast
  from inv obtain events where
    f0: "failing (client st) = failing nb0"
    and h0: "history (client st) = history nb0 @ events" and k0: "hooks st = createdNames events"
    and p0: "filter (\<lambda>entry. fst entry \<notin> set (hooks st)) (portGroups (client st)) =
               applyWrites events (portGroups nb0)"
    unfolding rollbackInv_def by blast
  have p: "filter (\<lambda>entry. fst entry \<notin> set (hooks st)) (portGroups nb') =
           applyWrites (events @ events') (portGroups nb0)"
    unfolding s applyWrites_append p0[symmetric]
    by (rule applyWrites_filter[of "\<lambda>name. name \<notin> set (hooks st)"])
  show "rollbackInv nb0 st'"
  proof (rule rollbackInvI[where events = "events @ events'"])
    show "failing (client st') = failing nb0" by (simp add: st' f f0)
    show "history (client st') = history nb0 @ events @ events'" by (simp add: st' h h0)
    show "hooks st' = createdNames (events @ events')" by (simp add: st' k0 c createdNames_append)
    show "filter (\<lambda>entry. fst entry \<notin> set (hooks st')) (portGroups (client st')) =
          applyWrites (events @ events') (portGroups nb0)"
      using p by (simp add: st')
  qed
qed

lemma filter_absent:
  assumes "name \<notin> set (map fst groups)"
  shows "filter (\<lambda>entry. fst entry \<notin> set (hs @ [name])) groups =
         filter (\<lambda>entry. fst entry \<notin> set hs) groups"
  using assms by (induction groups) auto

lemma preserved_createWithRevert:
  "preserved nb0 (createWithRevert projectID name parent switch ports)"
  unfolding everyRun_def
proof (intro allI impI)
  fix st r st'
  assume run: "createWithRevert projectID name parent switch ports st = (r, st')"
    and inv: "rollbackInv nb0 st"
  from inv obtain events where
    f0: "failing (client st) = failing nb0"
    and h0: "history (client st) = history nb0 @ events" and k0: "hooks st = createdNames events"
    and p0: "filter (\<lambda>entry. fst entry \<notin> set (hooks st)) (portGroups (client st)) =
               applyWrites events (portGroups nb0)"
    unfolding rollbackInv_def by blast
  let ?nb = "client st"
  show "rollbackInv nb0 st'"
  proof (cases "calls ?nb \<in> set (failing ?nb)")
    case True
    with run have st': "st' = st\<lparr>client := ?nb\<lparr>calls := Suc (calls ?nb)\<rparr>\<rparr>"
      by (simp add: createWithRevert_def andThen_def onClient_def CreatePortGroup_def call_def)
    show ?thesis
    proof (rule rollbackInvI[where events = events])
      show "filter (\<lambda>entry. fst entry \<notin> set (hooks st')) (portGroups (client st')) =
            applyWrites events (portGroups nb0)"
        using p0 by (simp add: st')
    qed (simp_all add: st' f0 h0 k0)
  next
    case nofail: False
    show ?thesis
    proof (cases "name \<in> set (map fst (portGroups ?nb))")
      case True
      with run nofail have st': "st' = st\<lparr>client := ?nb\<lparr>calls := Suc (calls ?nb)\<rparr>\<rparr>"
        by (simp add: createWithRevert_def andThen_def onClient_def CreatePortGroup_def call_def)
      show ?thesis
      proof (rule rollbackInvI[where events = events])
        show "filter (\<lambda>entry. fst entry \<notin> set (hooks st')) (portGroups (client st')) =
              applyWrites events (portGroups nb0)"
          using p0 by (simp add: st')
      qed (simp_all add: st' f0 h0 k0)
    next
      case False
      let ?new = "\<lparr>groupProject = projectID, groupParent = parent, groupSwitch = switch,
                     groupPorts = ports, groupRules = []\<rparr>"
      from run nofail False have st': "st' =
          st\<lparr>client := ?nb\<lparr>calls := Suc (calls ?nb),
                           portGroups := portGroups ?nb @ [(name, ?new)],
                           history := history ?nb @ [PortGroupCreated name]\<rparr>,
             hooks := hooks st @ [name]\<rparr>"
        by (simp add: createWithRevert_def andThen_def onClient_def CreatePortGroup_def call_def
            reverterAdd_def)
      have "filter (\<lambda>entry. fst entry \<notin> set (hooks st @ [name])) (portGroups ?nb @ [(name, ?new)]) =
            filter (\<lambda>entry. fst entry \<notin> set (hooks st @ [name])) (portGroups ?nb)"
        by simp
      also have "\<dots> = filter (\<lambda>entry. fst entry \<notin> set (hooks st)) (portGroups ?nb)"
        by (rule filter_absent[OF False])
      also have "\<dots> = applyWrites (events @ [PortGroupCreated name]) (portGroups nb0)"
        by (simp add: p0 applyWrites_def)
      finally have p: "filter (\<lambda>entry. fst entry \<notin> set (hooks st @ [name]))
              (portGroups ?nb @ [(name, ?new)]) =
            applyWrites (events @ [PortGroupCreated name]) (portGroups nb0)" .
      show ?thesis
      proof (rule rollbackInvI[where events = "events @ [PortGroupCreated name]"])
        show "filter (\<lambda>entry. fst entry \<notin> set (hooks st')) (portGroups (client st')) =
              applyWrites (events @ [PortGroupCreated name]) (portGroups nb0)"
          using p by (simp add: st')
      qed (simp_all add: st' f0 h0 k0 createdNames_append)
    qed
  qed
qed

lemma preserved_createReferenced: "preserved nb0 (createReferenced projectID ids aclName u)"
  unfolding createReferenced_def
  by (auto split: prod.splits
      intro!: preserved_andThen preserved_onClient quiet_GetPortGroupInfo
              preserved_createWithRevert preserved_succeed)

lemma preserved_createNetworkPortGroup:
  "preserved nb0 (createNetworkPortGroup projectID ids aclName aclNet u)"
  unfolding createNetworkPortGroup_def by (rule preserved_createWithRevert)

lemma preserved_applyStatus:
  "preserved nb0 (applyStatus env db project ids aclNets peers aclName aclInfo)"
  unfolding applyStatus_def by (rule preserved_onClient) (rule quiet_ovnApplyToPortGroup)

lemma preserved_createACLPortGroup:
  "preserved nb0 (createACLPortGroup env db project projectID ids aclNets peers status u)"
  unfolding createACLPortGroup_def
  by (auto split: option.splits
      intro!: preserved_andThen preserved_forEachRun preserved_createWithRevert
              preserved_createNetworkPortGroup preserved_applyStatus preserved_succeed)

lemma preserved_updateExistingPortGroup:
  "preserved nb0 (updateExistingPortGroup env db project projectID ids aclNets peers status u)"
  unfolding updateExistingPortGroup_def
  by (auto split: option.splits
      intro!: preserved_andThen preserved_forEachRun
              preserved_createNetworkPortGroup preserved_applyStatus preserved_succeed)

lemma preserved_OVNEnsureACLs_body:
  "preserved nb0 (OVNEnsureACLs_body env db project ids aclNets aclNames reapply)"
  unfolding OVNEnsureACLs_body_def
  by (auto split: option.splits sum.splits prod.splits
      intro!: preserved_andThen preserved_forEachRun preserved_onClient quiet_forEachRun
              quiet_checkPortGroup preserved_createReferenced preserved_createACLPortGroup
              preserved_updateExistingPortGroup preserved_failWith)


lemma runHook_clean:
  assumes "calls nb \<notin> set (failing nb)"
  shows "runHook name nb =
           nb\<lparr>calls := Suc (calls nb),
              portGroups := filter (\<lambda>entry. fst entry \<notin> set [name]) (portGroups nb),
              history := history nb @ [PortGroupsDeleted [name]]\<rparr>"
  using assms by (simp add: runHook_def DeletePortGroup_def call_def)

lemma fold_runHook_clean:
  assumes "list_all (\<lambda>n. n < calls nb) (failing nb)"
  shows "portGroups (fold runHook names nb) =
           filter (\<lambda>entry. fst entry \<notin> set names) (portGroups nb) \<and>
         history (fold runHook names nb) =
           history nb @ map (\<lambda>name. PortGroupsDeleted [name]) names"
  using assms
proof (induction names arbitrary: nb)
  case Nil
  then show ?case by simp
next
  case (Cons name names)
  have nf: "calls nb \<notin> set (failing nb)" using Cons.prems by (auto simp: list_all_iff)
  let ?nb1 = "nb\<lparr>calls := Suc (calls nb),
              portGroups := filter (\<lambda>entry. fst entry \<notin> set [name]) (portGroups nb),
              history := history nb @ [PortGroupsDeleted [name]]\<rparr>"
  have c1: "list_all (\<lambda>n. n < calls ?nb1) (failing ?nb1)"
    using Cons.prems by (auto simp: list_all_iff)
  have "fold runHook (name # names) nb = fold runHook names ?nb1"
    by (simp add: runHook_clean[OF nf])
  with Cons.IH[OF c1] show ?case by (auto intro: filter_cong)
qed

lemma find_SomeD: "List.find P xs = Some x \<Longrightarrow> P x \<and> x \<in> set xs"
  by (induction xs) (auto split: if_splits)

lemma peerCheck_Some:
  assumes "aclNet \<in> set aclNets" "peer \<in> set needed" "NetworkName peer \<noteq> UsageName aclNet"
  shows "\<exists>peer' aclNet'. peer' \<in> set needed \<and> aclNet' \<in> set aclNets \<and>
           NetworkName peer' \<noteq> UsageName aclNet' \<and>
           peerCheck aclNets needed = Some (PeerRequired peer' (UsageName aclNet'))"
proof -
  let ?P = "\<lambda>pair. NetworkName (snd pair) \<noteq> UsageName (fst pair)"
  have "(aclNet, peer) \<in> set (List.product aclNets needed)" using assms by simp
  then have "List.find ?P (List.product aclNets needed) \<noteq> None"
    using assms(3) by (auto simp: find_None_iff)
  then obtain pair where f: "List.find ?P (List.product aclNets needed) = Some pair" by auto
  obtain aclNet' peer' where pair: "pair = (aclNet', peer')" by (cases pair) auto
  from find_SomeD[OF f] have "?P pair" and "pair \<in> set (List.product aclNets needed)"
    by simp_all
  then show ?thesis using f pair by (auto simp: peerCheck_def)
qed

text \<open>
  The peer connections that the compiler collects are tied to the subjects of the
  rules. A subject \<open>@net/peer\<close> of a rule that is not disabled goes through the
  address set substitution unchanged (it does not start with \<open>$\<close>), is split off
  again, reaches the peer branch of \<open>ovnRuleSubjectToOVNACLMatch\<close> when it is not
  taken for a range, an address or a reserved alias, and is appended there to the
  peers needed, which no later step removes.
\<close>

lemma Split_no_sep: "sep \<notin> set x \<Longrightarrow> Split x sep = [x]"
  by (induction x) auto

lemma Split_append_sep: "sep \<notin> set x \<Longrightarrow> Split (x @ sep # rest) sep = x # Split rest sep"
  by (induction x) (auto split: list.splits)

lemma Split_Join:
  assumes "ys \<noteq> []" and "\<forall>y \<in> set ys. sep \<notin> set y"
  shows "Split (Join ys [sep]) sep = ys"
  using assms
proof (induction ys "[sep]" rule: Join.induct)
  case 1
  then show ?case by simp
next
  case (2 x)
  then show ?case by (simp add: Split_no_sep)
next
  case (3 x y ys)
  then show ?case by (simp add: Split_append_sep)
qed

lemma Split_parts_no_sep: "p \<in> set (Split s sep) \<Longrightarrow> sep \<notin> set p"
proof (induction s arbitrary: p)
  case Nil
  then show ?case by simp
next
  case (Cons c cs)
  show ?case
  proof (cases "c = sep")
    case True
    with Cons show ?thesis by auto
  next
    case False
    obtain q qs where s: "Split cs sep = q # qs" by (cases "Split cs sep") (auto, cases cs, auto split: if_splits list.splits)
    with Cons False show ?thesis by auto
  qed
qed

lemma set_TrimSpace: "set (TrimSpace s) \<subseteq> set s"
  unfolding TrimSpace_def
  by (metis set_dropWhileD set_rev subsetI)

lemma TrimSpace_idem: "TrimSpace (TrimSpace s) = TrimSpace s"
proof -
  let ?v = "dropWhile isSpace s"
  let ?w = "dropWhile isSpace (rev ?v)"
  have u: "TrimSpace s = rev ?w" by (simp add: TrimSpace_def)
  have w: "dropWhile isSpace ?w = ?w" by simp
  have "dropWhile isSpace (rev ?w) = rev ?w"
  proof (cases "?w = []")
    case True
    show ?thesis unfolding True by simp
  next
    case False
    then have "rev ?v = takeWhile isSpace (rev ?v) @ ?w" by simp
    then have "?v = rev ?w @ rev (takeWhile isSpace (rev ?v))"
      by (metis rev_append rev_rev_ident)
    then obtain z where v: "?v = rev ?w @ z" by blast
    have "?v \<noteq> []"
    proof
      assume e: "?v = []"
      have "?w = []" unfolding e by simp
      with False show False by contradiction
    qed
    then have "\<not> isSpace (hd ?v)" by (rule hd_dropWhile)
    moreover have "hd ?v = hd (rev ?w)" using v False by (metis hd_append2 rev_is_Nil_conv)
    ultimately have "\<not> isSpace (hd (rev ?w))" by simp
    then show ?thesis using False by (cases "rev ?w") auto
  qed
  then show ?thesis unfolding TrimSpace_def by simp
qed

lemma digits_chars: "set (digits n) \<subseteq> set ''0123456789''"
proof (induction n rule: digits.induct)
  case (1 n)
  have nth: "\<And>k. k < 10 \<Longrightarrow> ''0123456789'' ! k \<in> set ''0123456789''"
    by (rule nth_mem) simp
  show ?case
  proof (cases "n < 10")
    case True
    then show ?thesis using nth[of n] by (subst digits.simps) simp
  next
    case False
    have "n mod 10 < 10" by simp
    from nth[OF this] 1[OF False] False show ?thesis by (subst digits.simps) simp
  qed
qed

lemma Itoa_no_comma: "CHR '','' \<notin> set (Itoa i)"
  using digits_chars[of "nat i"] digits_chars[of "nat (- i)"]
  by (auto simp: Itoa_def)

lemma Join_nonempty: "x \<in> set ys \<Longrightarrow> x \<noteq> [] \<Longrightarrow> Join ys sep \<noteq> []"
  by (induction ys sep rule: Join.induct) auto

lemma replaceAddressSetNames_keeps:
  assumes t: "t \<in> set (SplitNTrimSpace subject CHR '','' True)"
    and plain: "\<not> HasPrefix t ''$''" and ne: "t \<noteq> []"
  shows "replaceAddressSetNames subject sets \<noteq> [] \<and>
         t \<in> set (SplitNTrimSpace (replaceAddressSetNames subject sets) CHR '','' False)"
proof -
  let ?f = "\<lambda>subj. case CutPrefix subj ''$'' of
                    Some after \<Rightarrow>
                      (case sets after of
                         Some setID \<Rightarrow> ''$incus_set'' @ Itoa setID
                       | None \<Rightarrow> subj)
                  | None \<Rightarrow> subj"
  let ?tokens = "SplitNTrimSpace subject CHR '','' True"
  have tokens: "?tokens = map TrimSpace (Split subject CHR '','')"
    using t by (auto simp: SplitNTrimSpace_def split: if_splits)
  have r: "replaceAddressSetNames subject sets = Join (map ?f ?tokens) '',''"
    by (simp add: replaceAddressSetNames_def)
  have ft: "?f t = t" using plain by (simp add: CutPrefix_def)
  have trimmed: "TrimSpace t = t" using t unfolding tokens by (auto simp: TrimSpace_idem)
  have nocomma: "\<forall>y \<in> set (map ?f ?tokens). CHR '','' \<notin> set y"
  proof
    fix y assume "y \<in> set (map ?f ?tokens)"
    then obtain u where u: "u \<in> set ?tokens" and y: "y = ?f u" by auto
    from u obtain p where "p \<in> set (Split subject CHR '','')" and "u = TrimSpace p"
      unfolding tokens by auto
    then have "CHR '','' \<notin> set u" using Split_parts_no_sep set_TrimSpace by fastforce
    then show "CHR '','' \<notin> set y" unfolding y using Itoa_no_comma
      by (auto split: option.splits)
  qed
  have mem: "t \<in> set (map ?f ?tokens)" using t ft by force
  then have nonempty: "map ?f ?tokens \<noteq> []" by auto
  have split: "Split (Join (map ?f ?tokens) '','') CHR '','' = map ?f ?tokens"
    by (rule Split_Join[OF nonempty nocomma])
  have "replaceAddressSetNames subject sets \<noteq> []"
    unfolding r by (rule Join_nonempty[OF mem ne])
  moreover have "t \<in> set (SplitNTrimSpace (replaceAddressSetNames subject sets) CHR '','' False)"
  proof -
    have e: "SplitNTrimSpace (Join (map ?f ?tokens) '','') CHR '','' False =
             map TrimSpace (map ?f ?tokens)"
      unfolding SplitNTrimSpace_def[of _ _ False] split by simp
    from mem have "TrimSpace t \<in> TrimSpace ` set (map ?f ?tokens)" by (rule imageI)
    then have "TrimSpace t \<in> set (map TrimSpace (map ?f ?tokens))" by (simp only: set_map)
    then show ?thesis unfolding r e trimmed .
  qed
  ultimately show ?thesis by blast
qed


lemma forEach_reaches:
  assumes keep: "\<And>x a a'. Q a \<Longrightarrow> body x a = Inr a' \<Longrightarrow> Q a'"
    and hit: "\<And>a a'. body t a = Inr a' \<Longrightarrow> Q a'"
    and t: "t \<in> set xs" and run: "forEach body xs acc = Inr acc'"
  shows "Q acc'"
  using t run
proof (induction xs arbitrary: acc)
  case Nil
  then show ?case by simp
next
  case (Cons x xs)
  from Cons.prems(2) obtain a where b: "body x acc = Inr a" and f: "forEach body xs a = Inr acc'"
    by (auto split: sum.splits)
  show ?case
  proof (cases "x = t")
    case True
    with b have "Q a" using hit by blast
    show ?thesis
      by (rule forEach_invariant[where P = Q, OF \<open>Q a\<close> _ f]) (rule keep)
  next
    case False
    with Cons.prems(1) have "t \<in> set xs" by simp
    from Cons.IH[OF this f] show ?thesis .
  qed
qed

lemma SplitN2_peer:
  assumes "CHR ''/'' \<notin> set net"
  shows "SplitN2 (net @ CHR ''/'' # peer) CHR ''/'' = [net, peer]"
proof -
  have "takeWhile (\<lambda>c. c \<noteq> CHR ''/'') (net @ CHR ''/'' # peer) = net"
    using assms by (induction net) auto
  moreover have "dropWhile (\<lambda>c. c \<noteq> CHR ''/'') (net @ CHR ''/'' # peer) = CHR ''/'' # peer"
    using assms by (induction net) auto
  ultimately show ?thesis by (simp add: SplitN2_def)
qed

lemma subject_body_keeps_peers:
  assumes "ovnRuleSubjectToOVNACLMatch_body env dir ids peers x (fp, ns, np) = Inr (fp', ns', np')"
  shows "set np \<subseteq> set np'"
  using assms
  by (auto simp: ovnRuleSubjectToOVNACLMatch_body_def Let_def split: if_splits option.splits)

lemma subject_body_records_peer:
  assumes plain: "\<not> IsNetworkRange env subject" "ParseIP env subject = None"
      "ParseCIDR env subject = None"
      "subject \<notin> set (ruleSubjectInternalAliases env @ ruleSubjectExternalAliases env)"
    and form: "subject = ''@'' @ net @ ''/'' @ peer" "CHR ''/'' \<notin> set net"
    and run: "ovnRuleSubjectToOVNACLMatch_body env dir ids peers subject (fp, ns, np) = Inr (fp', ns', np')"
  shows "\<lparr>NetworkName = net, PeerName = peer\<rparr> \<in> set np'"
proof -
  have d: "\<not> HasPrefix subject ''$''" by (simp add: form(1) HasPrefix_def)
  have c: "CutPrefix subject ''@'' = Some (net @ ''/'' @ peer)"
    by (simp add: form(1) CutPrefix_def HasPrefix_def)
  from run show ?thesis
    unfolding ovnRuleSubjectToOVNACLMatch_body_def
    using plain d
    by (auto simp: c SplitN2_peer[OF form(2)] Let_def split: option.splits)
qed

lemma subjects_record_peer:
  assumes plain: "\<not> IsNetworkRange env subject" "ParseIP env subject = None"
      "ParseCIDR env subject = None"
      "subject \<notin> set (ruleSubjectInternalAliases env @ ruleSubjectExternalAliases env)"
    and form: "subject = ''@'' @ net @ ''/'' @ peer" "CHR ''/'' \<notin> set net"
    and mem: "subject \<in> set subjects"
    and run: "ovnRuleSubjectToOVNACLMatch env dir ids peers subjects = Inr (m, ns, np)"
  shows "\<lparr>NetworkName = net, PeerName = peer\<rparr> \<in> set np"
proof -
  let ?Q = "\<lambda>acc :: string list \<times> bool \<times> NetworkPeerConnection list.
              \<lparr>NetworkName = net, PeerName = peer\<rparr> \<in> set (snd (snd acc))"
  let ?body = "ovnRuleSubjectToOVNACLMatch_body env dir ids peers"
  from run obtain fp where f: "forEach ?body subjects ([], False, []) = Inr (fp, ns, np)"
    by (auto simp: ovnRuleSubjectToOVNACLMatch_def split: sum.splits)
  have keep: "\<And>x a a'. ?Q a \<Longrightarrow> ?body x a = Inr a' \<Longrightarrow> ?Q a'"
  proof -
    fix x a a' assume q: "?Q a" and b: "?body x a = Inr a'"
    obtain fp ns np where a: "a = (fp, ns, np)" by (cases a) auto
    obtain fp' ns' np' where a': "a' = (fp', ns', np')" by (cases a') auto
    from subject_body_keeps_peers[OF b[unfolded a a']] q show "?Q a'" by (auto simp: a a')
  qed
  have hit: "\<And>a a'. ?body subject a = Inr a' \<Longrightarrow> ?Q a'"
  proof -
    fix a a' assume b: "?body subject a = Inr a'"
    obtain fp ns np where a: "a = (fp, ns, np)" by (cases a) auto
    obtain fp' ns' np' where a': "a' = (fp', ns', np')" by (cases a') auto
    from subject_body_records_peer[OF plain form b[unfolded a a']] show "?Q a'" by (simp add: a')
  qed
  from forEach_reaches[where Q = ?Q, OF keep hit mem f] show ?thesis by simp
qed

lemma subjectParts_records_peer:
  assumes plain: "\<not> IsNetworkRange env subject" "ParseIP env subject = None"
      "ParseCIDR env subject = None"
      "subject \<notin> set (ruleSubjectInternalAliases env @ ruleSubjectExternalAliases env)"
    and form: "subject = ''@'' @ net @ ''/'' @ peer" "CHR ''/'' \<notin> set net"
    and ne: "criteria \<noteq> []"
    and mem: "subject \<in> set (SplitNTrimSpace criteria CHR '','' False)"
    and run: "subjectParts env dir ids peers criteria = Inr (parts, ns, np)"
  shows "\<lparr>NetworkName = net, PeerName = peer\<rparr> \<in> set np"
proof -
  from subjectParts_cases[OF run] ne obtain m where
    "ovnRuleSubjectToOVNACLMatch env dir ids peers (SplitNTrimSpace criteria CHR '','' False) =
       Inr (m, ns, np)" by auto
  from subjects_record_peer[OF plain form mem this] show ?thesis .
qed

lemma convertACLRule_keeps_peers:
  assumes "convertACLRule env pg ids peers sets direction x (pgRules, netRules, np) =
             Inr (pgRules', netRules', np')"
  shows "set np \<subseteq> set np'"
proof -
  obtain i rule where x: "x = (i, rule)" by (cases x) auto
  show ?thesis
  proof (cases "State rule = ''disabled''")
    case True
    with assms x show ?thesis by (simp add: convertACLRule_disabled)
  next
    case False
    let ?rule' = "rule\<lparr>Source := replaceAddressSetNames (Source rule) sets,
                  Destination := replaceAddressSetNames (Destination rule) sets\<rparr>"
    show ?thesis
    proof (cases "ovnRuleCriteriaToOVNACLRule env direction ?rule' pg ids peers")
      case (Inl e)
      with assms x False show ?thesis by (simp add: convertACLRule_def)
    next
      case (Inr y)
      obtain r0 ns np0 where y: "y = (r0, ns, np0)" by (cases y) auto
      from assms x False Inr y have "np' = np @ np0"
        by (auto simp: convertACLRule_def Let_def split: if_splits)
      then show ?thesis by auto
    qed
  qed
qed

lemma convertACLRule_records_peer:
  assumes plain: "\<not> IsNetworkRange env subject" "ParseIP env subject = None"
      "ParseCIDR env subject = None"
      "subject \<notin> set (ruleSubjectInternalAliases env @ ruleSubjectExternalAliases env)"
    and form: "subject = ''@'' @ net @ ''/'' @ peer" "CHR ''/'' \<notin> set net"
    and enabled: "State rule \<noteq> ''disabled''"
    and mem: "subject \<in> set (SplitNTrimSpace (Source rule) CHR '','' True) \<union>
                        set (SplitNTrimSpace (Destination rule) CHR '','' True)"
    and run: "convertACLRule env pg ids peers sets direction (i, rule) (pgRules, netRules, np) =
                Inr (pgRules', netRules', np')"
  shows "\<lparr>NetworkName = net, PeerName = peer\<rparr> \<in> set np'"
proof -
  let ?rule' = "rule\<lparr>Source := replaceAddressSetNames (Source rule) sets,
                Destination := replaceAddressSetNames (Destination rule) sets\<rparr>"
  have d: "\<not> HasPrefix subject ''$''" by (simp add: form(1) HasPrefix_def)
  have ne: "subject \<noteq> []" by (simp add: form(1))
  show ?thesis
  proof (cases "ovnRuleCriteriaToOVNACLRule env direction ?rule' pg ids peers")
    case (Inl e)
    with run enabled show ?thesis by (simp add: convertACLRule_def)
  next
    case (Inr y)
    obtain r0 ns np0 where y: "y = (r0, ns, np0)" by (cases y) auto
    from run enabled Inr y have np': "np' = np @ np0"
      by (auto simp: convertACLRule_def Let_def split: if_splits)
    have S: "Source ?rule' = replaceAddressSetNames (Source rule) sets"
      and D: "Destination ?rule' = replaceAddressSetNames (Destination rule) sets" by simp_all
    from ovnRuleCriteriaToOVNACLRule_Inr[OF Inr[unfolded y], unfolded S D]
    obtain src ns1 np1 dst ns2 np2 where
      s: "subjectParts env ''src'' ids peers (replaceAddressSetNames (Source rule) sets) =
            Inr (src, ns1, np1)"
      and t: "subjectParts env ''dst'' ids peers (replaceAddressSetNames (Destination rule) sets) =
            Inr (dst, ns2, np2)"
      and np0: "np0 = np1 @ np2" by blast
    from mem have "\<lparr>NetworkName = net, PeerName = peer\<rparr> \<in> set np1 \<union> set np2"
    proof
      assume "subject \<in> set (SplitNTrimSpace (Source rule) CHR '','' True)"
      from replaceAddressSetNames_keeps[OF this d ne, of sets]
        subjectParts_records_peer[OF plain form _ _ s]
      show ?thesis by blast
    next
      assume "subject \<in> set (SplitNTrimSpace (Destination rule) CHR '','' True)"
      from replaceAddressSetNames_keeps[OF this d ne, of sets]
        subjectParts_records_peer[OF plain form _ _ t]
      show ?thesis by blast
    qed
    then show ?thesis by (simp add: np' np0)
  qed
qed

lemma convertACLRules_keeps_peers:
  assumes "p \<in> set np"
    and "convertACLRules env pg ids peers sets direction rules (pgRules, netRules, np) =
           Inr (pgRules', netRules', np')"
  shows "p \<in> set np'"
proof -
  let ?Q = "\<lambda>acc :: OVNACLRule list \<times> OVNACLRule list \<times> NetworkPeerConnection list.
              p \<in> set (snd (snd acc))"
  let ?body = "convertACLRule env pg ids peers sets direction"
  have keep: "\<And>x a a'. x \<in> set (zip [0 ..< length rules] rules) \<Longrightarrow> ?Q a \<Longrightarrow>
                ?body x a = Inr a' \<Longrightarrow> ?Q a'"
  proof -
    fix x a a' assume q: "?Q a" and b: "?body x a = Inr a'"
    obtain a1 a2 a3 where a: "a = (a1, a2, a3)" by (cases a) auto
    obtain b1 b2 b3 where a': "a' = (b1, b2, b3)" by (cases a') auto
    from convertACLRule_keeps_peers[OF b[unfolded a a']] q show "?Q a'" by (auto simp: a a')
  qed
  have q0: "?Q (pgRules, netRules, np)" using assms(1) by simp
  from assms(2) have f: "forEach ?body (zip [0 ..< length rules] rules) (pgRules, netRules, np) =
      Inr (pgRules', netRules', np')"
    by (simp add: convertACLRules_def)
  from forEach_invariant[where P = ?Q, OF q0 keep f] show ?thesis by simp
qed

lemma convertACLRules_records_peer:
  assumes plain: "\<not> IsNetworkRange env subject" "ParseIP env subject = None"
      "ParseCIDR env subject = None"
      "subject \<notin> set (ruleSubjectInternalAliases env @ ruleSubjectExternalAliases env)"
    and form: "subject = ''@'' @ net @ ''/'' @ peer" "CHR ''/'' \<notin> set net"
    and rule: "rule \<in> set rules" and enabled: "State rule \<noteq> ''disabled''"
    and mem: "subject \<in> set (SplitNTrimSpace (Source rule) CHR '','' True) \<union>
                        set (SplitNTrimSpace (Destination rule) CHR '','' True)"
    and run: "convertACLRules env pg ids peers sets direction rules acc = Inr (pgRules', netRules', np')"
  shows "\<lparr>NetworkName = net, PeerName = peer\<rparr> \<in> set np'"
proof -
  let ?Q = "\<lambda>acc :: OVNACLRule list \<times> OVNACLRule list \<times> NetworkPeerConnection list.
              \<lparr>NetworkName = net, PeerName = peer\<rparr> \<in> set (snd (snd acc))"
  let ?body = "convertACLRule env pg ids peers sets direction"
  from rule obtain i where i: "i < length rules" and r: "rules ! i = rule"
    by (auto simp: in_set_conv_nth)
  have t: "(i, rule) \<in> set (zip [0 ..< length rules] rules)"
    using i r by (auto simp: in_set_zip intro!: exI[of _ i])
  have keep: "\<And>x a a'. ?Q a \<Longrightarrow> ?body x a = Inr a' \<Longrightarrow> ?Q a'"
  proof -
    fix x a a' assume q: "?Q a" and b: "?body x a = Inr a'"
    obtain a1 a2 a3 where a: "a = (a1, a2, a3)" by (cases a) auto
    obtain b1 b2 b3 where a': "a' = (b1, b2, b3)" by (cases a') auto
    from convertACLRule_keeps_peers[OF b[unfolded a a']] q show "?Q a'" by (auto simp: a a')
  qed
  have hit: "\<And>a a'. ?body (i, rule) a = Inr a' \<Longrightarrow> ?Q a'"
  proof -
    fix a a' assume b: "?body (i, rule) a = Inr a'"
    obtain a1 a2 a3 where a: "a = (a1, a2, a3)" by (cases a) auto
    obtain b1 b2 b3 where a': "a' = (b1, b2, b3)" by (cases a') auto
    from convertACLRule_records_peer[OF plain form enabled mem b[unfolded a a']]
    show "?Q a'" by (simp add: a')
  qed
  from run have f: "forEach ?body (zip [0 ..< length rules] rules) acc = Inr (pgRules', netRules', np')"
    by (simp add: convertACLRules_def)
  from forEach_reaches[where Q = ?Q, OF keep hit t f] show ?thesis by simp
qed

lemma ovnApplyToPortGroup_rules_records_peer:
  assumes compiles: "ovnApplyToPortGroup_rules env addressSets aclInfo pg ids peers =
                       Inr (pgRules, netRules, needed)"
    and rule: "rule \<in> set (Ingress aclInfo @ Egress aclInfo)" and enabled: "State rule \<noteq> ''disabled''"
    and mem: "subject \<in> set (SplitNTrimSpace (Source rule) CHR '','' True) \<union>
                        set (SplitNTrimSpace (Destination rule) CHR '','' True)"
    and form: "subject = ''@'' @ net @ ''/'' @ peer" "CHR ''/'' \<notin> set net"
    and plain: "\<not> IsNetworkRange env subject" "ParseIP env subject = None"
      "ParseCIDR env subject = None"
      "subject \<notin> set (ruleSubjectInternalAliases env @ ruleSubjectExternalAliases env)"
  shows "\<lparr>NetworkName = net, PeerName = peer\<rparr> \<in> set needed"
proof -
  from ovnApplyToPortGroup_rules_Inr[OF compiles] obtain sets acc1 pg0 where
    i: "convertACLRules env pg ids peers sets ''ingress'' (Ingress aclInfo) ([], [], []) = Inr acc1"
    and e: "convertACLRules env pg ids peers sets ''egress'' (Egress aclInfo) acc1 =
             Inr (pg0, netRules, needed)" by blast
  obtain a1 a2 a3 where acc1: "acc1 = (a1, a2, a3)" by (cases acc1) auto
  from rule have "rule \<in> set (Ingress aclInfo) \<or> rule \<in> set (Egress aclInfo)" by simp
  then show ?thesis
  proof
    assume "rule \<in> set (Ingress aclInfo)"
    from convertACLRules_records_peer[OF plain form this enabled mem i[unfolded acc1]]
    have "\<lparr>NetworkName = net, PeerName = peer\<rparr> \<in> set a3" .
    from convertACLRules_keeps_peers[OF this e[unfolded acc1]] show ?thesis .
  next
    assume "rule \<in> set (Egress aclInfo)"
    from convertACLRules_records_peer[OF plain form this enabled mem e] show ?thesis .
  qed
qed

text \<open>
  Claim C6. Let a rule of the ACL that is not disabled have, in its source or in
  its destination, a subject \<open>@net/peer\<close> (\<open>net\<close> without \<open>/\<close>) that is a peer subject:
  the parsers and validators do not take it for a range, an address or a CIDR, and it
  is not a reserved alias. When the ACL compiles, the peer connection \<open>(net, peer)\<close>
  is among the peers needed; and when the ACL is bound to a network whose name is
  not \<open>net\<close>, \<open>ovnApplyToPortGroup\<close> returns the error that the ACL requiring a peer
  cannot be applied to a network, for a needed peer and a bound network of different
  names, and OVN is as it was: no call was made to it.
\<close>

theorem peer_check_fails_before_any_write:
  assumes compiles: "ovnApplyToPortGroup_rules env (dbAddressSets db (Project aclInfo)) aclInfo pg
                       ids peers = Inr (pgRules, netRules, needed)"
    and rule: "rule \<in> set (Ingress aclInfo @ Egress aclInfo)" and enabled: "State rule \<noteq> ''disabled''"
    and mem: "subject \<in> set (SplitNTrimSpace (Source rule) CHR '','' True) \<union>
                        set (SplitNTrimSpace (Destination rule) CHR '','' True)"
    and form: "subject = ''@'' @ net @ ''/'' @ peer" "CHR ''/'' \<notin> set net"
    and plain: "\<not> IsNetworkRange env subject" "ParseIP env subject = None"
      "ParseCIDR env subject = None"
      "subject \<notin> set (ruleSubjectInternalAliases env @ ruleSubjectExternalAliases env)"
    and bound: "aclNet \<in> set aclNets" "UsageName aclNet \<noteq> net"
  shows "\<lparr>NetworkName = net, PeerName = peer\<rparr> \<in> set needed \<and>
         (\<exists>conn aclNet'. conn \<in> set needed \<and> aclNet' \<in> set aclNets \<and>
            NetworkName conn \<noteq> UsageName aclNet' \<and>
            ovnApplyToPortGroup env db aclInfo pg ids aclNets peers nb =
              (Inl (PeerRequired conn (UsageName aclNet')), nb))"
proof -
  have n: "\<lparr>NetworkName = net, PeerName = peer\<rparr> \<in> set needed"
    by (rule ovnApplyToPortGroup_rules_records_peer[OF compiles rule enabled mem form plain])
  have d: "NetworkName \<lparr>NetworkName = net, PeerName = peer\<rparr> \<noteq> UsageName aclNet"
    using bound(2) by simp
  from peerCheck_Some[OF bound(1) n d] obtain conn aclNet' where
    "conn \<in> set needed" "aclNet' \<in> set aclNets" "NetworkName conn \<noteq> UsageName aclNet'"
    and c: "peerCheck aclNets needed = Some (PeerRequired conn (UsageName aclNet'))" by blast
  moreover have "ovnApplyToPortGroup env db aclInfo pg ids aclNets peers nb =
             (Inl (PeerRequired conn (UsageName aclNet')), nb)"
    by (simp add: ovnApplyToPortGroup_def compiles c failWith_def)
  ultimately show ?thesis using n by blast
qed

lemma ex_peer_compile:
  "ovnApplyToPortGroup_rules example_env (dbAddressSets (example_db [] []) (Project example_peer_acl))
     example_peer_acl ''incus_acl7'' Map.empty example_peers =
   Inr ([\<lparr>Direction = ''to-lport'', OVNAction = ''allow-related'', Priority = 300,
          Match = ''(inport == @incus_acl7) && (ip6.dst == $incus_net12_routes_ip6 || ip4.dst == $incus_net12_routes_ip4)'',
          Log = False, LogName = []\<rparr>,
         \<lparr>Direction = ''to-lport'', OVNAction = ''drop'', Priority = 0,
          Match = ''(inport == @incus_acl7 || outport == @incus_acl7)'', Log = False,
          LogName = ''incus_acl7''\<rparr>],
        [], [\<lparr>NetworkName = ''mynet'', PeerName = ''mypeer''\<rparr>])"
  by code_simp

text \<open>
  The fifth scenario of the spec: the destination \<open>@mynet/mypeer\<close>, applied to a
  network that is not \<open>mynet\<close>.
\<close>

theorem peer_check_fails_before_any_write_witness:
  "ovnApplyToPortGroup example_env (example_db [] []) example_peer_acl ''incus_acl7'' Map.empty
     [\<lparr>UsageID = 9, UsageName = ''othernet''\<rparr>] example_peers (example_nb [] []) =
   (Inl (PeerRequired \<lparr>NetworkName = ''mynet'', PeerName = ''mypeer''\<rparr> ''othernet''),
    example_nb [] [])"
proof -
  let ?rule = "(example_rule ''allow'')\<lparr>Destination := ''@mynet/mypeer''\<rparr>"
  have rule: "?rule \<in> set (Ingress example_peer_acl @ Egress example_peer_acl)"
    by (simp add: example_peer_acl_def example_named_acl_def)
  have enabled: "State ?rule \<noteq> ''disabled''" by (simp add: example_rule_def)
  have mem: "''@mynet/mypeer'' \<in> set (SplitNTrimSpace (Source ?rule) CHR '','' True) \<union>
                                 set (SplitNTrimSpace (Destination ?rule) CHR '','' True)"
    by (simp add: example_rule_def SplitNTrimSpace_def TrimSpace_def isSpace_def)
  have form: "''@mynet/mypeer'' = ''@'' @ ''mynet'' @ ''/'' @ ''mypeer''"
    "CHR ''/'' \<notin> set ''mynet''" by simp_all
  have plain: "\<not> IsNetworkRange example_env ''@mynet/mypeer''"
    "ParseIP example_env ''@mynet/mypeer'' = None"
    "ParseCIDR example_env ''@mynet/mypeer'' = None"
    "''@mynet/mypeer'' \<notin> set (ruleSubjectInternalAliases example_env @
                                  ruleSubjectExternalAliases example_env)"
    by (simp_all add: example_env_def)
  have bound: "\<lparr>UsageID = 9, UsageName = ''othernet''\<rparr> \<in> set [\<lparr>UsageID = 9, UsageName = ''othernet''\<rparr>]"
    "UsageName \<lparr>UsageID = 9, UsageName = ''othernet''\<rparr> \<noteq> ''mynet''" by simp_all
  from peer_check_fails_before_any_write[OF ex_peer_compile rule enabled mem form plain bound,
      of "example_nb [] []"]
  show ?thesis by auto
qed

text \<open>
  Claim C4 says that every port group named by a compiled rule exists when the rule
  set is applied, rule application coming last. The loop over the ACLs to create
  creates the port group of one ACL and applies its rules before it turns to the
  next ACL, and the ACLs to create get no placeholder. With the ACLs \<open>a\<close> and \<open>b\<close>
  both to create, and a rule of \<open>a\<close> whose source is \<open>b\<close>, the rules of
  \<open>incus_acl1\<close>, which name \<open>@incus_acl2\<close>, are written before \<open>incus_acl2\<close> is created.
\<close>

theorem rules_applied_before_referenced_port_group_exists:
  "history (snd (OVNEnsureACLs example_env example_order_db ''default'' [''a'' \<mapsto> 1, ''b'' \<mapsto> 2] []
                   [''a'', ''b''] False (example_nb [] []))) =
   [PortGroupCreated ''incus_acl1'',
    RulesReplaced ''incus_acl1''
      [\<lparr>Direction = ''to-lport'', OVNAction = ''allow-related'', Priority = 300,
        Match = ''(outport == @incus_acl1) && (inport == @incus_acl2)'',
        Log = False, LogName = []\<rparr>,
       \<lparr>Direction = ''to-lport'', OVNAction = ''drop'', Priority = 0,
        Match = ''(inport == @incus_acl1 || outport == @incus_acl1)'',
        Log = False, LogName = ''incus_acl1''\<rparr>],
    PortGroupCreated ''incus_acl2'',
    RulesReplaced ''incus_acl2''
      [\<lparr>Direction = ''to-lport'', OVNAction = ''drop'', Priority = 0,
        Match = ''(inport == @incus_acl2 || outport == @incus_acl2)'',
        Log = False, LogName = ''incus_acl2''\<rparr>]]"
  by code_simp

text \<open>
  Claim C3 as it is stated fails: the reverter only holds hooks that delete port
  groups. The port groups of \<open>a\<close> and \<open>b\<close> exist without rules; the rules of \<open>a\<close> are
  written, then the rules of \<open>b\<close> do not compile. The call returns the error, and
  \<open>incus_acl1\<close> keeps the rule set written during the call.
\<close>

theorem rule_sets_are_not_rolled_back:
  "fst (OVNEnsureACLs example_env example_broken_db ''default'' [''a'' \<mapsto> 1, ''b'' \<mapsto> 2] []
          [''a'', ''b''] False
          (example_nb [(''incus_acl1'', example_group []), (''incus_acl2'', example_group [])] [])) =
     Inl (ACLIDNotFound ''ghost'') \<and>
   portGroups (snd (OVNEnsureACLs example_env example_broken_db ''default'' [''a'' \<mapsto> 1, ''b'' \<mapsto> 2] []
          [''a'', ''b''] False
          (example_nb [(''incus_acl1'', example_group []), (''incus_acl2'', example_group [])] []))) =
     [(''incus_acl1'', example_group
         [\<lparr>Direction = ''to-lport'', OVNAction = ''drop'', Priority = 0,
           Match = ''(inport == @incus_acl1 || outport == @incus_acl1)'', Log = False,
           LogName = ''incus_acl1''\<rparr>]),
      (''incus_acl2'', example_group [])]"
  by code_simp

text \<open>
  Claim C3, as amended. Let the body of \<open>OVNEnsureACLs\<close> end, with an error or not, in
  a state where no failure is planned for the calls still to come. The hooks of the
  reverter are then the port groups created during the call, in the order of their
  creation; running them deletes these port groups one by one, the last created
  first, and leaves exactly the port groups of before the call, each as it was but
  for the rule sets that the call wrote to it: a port group whose rule set the call
  did not write is as before the call, rule set included. On an error
  \<open>OVNEnsureACLs\<close> runs the hooks; on success it returns them and does not.
\<close>

theorem rollback_restores_port_groups:
  assumes body: "OVNEnsureACLs_body env db aclProjectName aclNameIDs aclNets aclNames reapplyRules
                   \<lparr>client = nb, hooks = []\<rparr> = (result, st)"
    and clean: "list_all (\<lambda>n. n < calls (client st)) (failing nb)"
  shows "OVNEnsureACLs env db aclProjectName aclNameIDs aclNets aclNames reapplyRules nb =
           (case result of
              Inl e \<Rightarrow> (Inl e, revertFail (hooks st) (client st))
            | Inr u \<Rightarrow> (Inr (hooks st), client st)) \<and>
         hooks st = createdNames (drop (length (history nb)) (history (client st))) \<and>
         history (revertFail (hooks st) (client st)) =
           history (client st) @ map (\<lambda>name. PortGroupsDeleted [name]) (rev (hooks st)) \<and>
         portGroups (revertFail (hooks st) (client st)) =
           applyWrites (drop (length (history nb)) (history (client st))) (portGroups nb) \<and>
         filter (\<lambda>entry. fst entry \<notin>
                   set (replacedNames (drop (length (history nb)) (history (client st)))))
           (portGroups (revertFail (hooks st) (client st))) =
           filter (\<lambda>entry. fst entry \<notin>
                     set (replacedNames (drop (length (history nb)) (history (client st)))))
             (portGroups nb) \<and>
         stripRules (portGroups (revertFail (hooks st) (client st))) = stripRules (portGroups nb)"
proof -
  have init: "rollbackInv nb \<lparr>client = nb, hooks = []\<rparr>"
    by (rule rollbackInvI[where events = "[]"]) (simp_all add: applyWrites_def)
  from everyRunD[OF preserved_OVNEnsureACLs_body body] init have inv: "rollbackInv nb st" by simp
  then obtain events where
    f: "failing (client st) = failing nb"
    and h: "history (client st) = history nb @ events" and k: "hooks st = createdNames events"
    and p: "filter (\<lambda>entry. fst entry \<notin> set (hooks st)) (portGroups (client st)) =
              applyWrites events (portGroups nb)"
    unfolding rollbackInv_def by blast
  have ev: "drop (length (history nb)) (history (client st)) = events" using h by simp
  have first: "OVNEnsureACLs env db aclProjectName aclNameIDs aclNets aclNames reapplyRules nb =
           (case result of
              Inl e \<Rightarrow> (Inl e, revertFail (hooks st) (client st))
            | Inr u \<Rightarrow> (Inr (hooks st), client st))"
    by (simp add: OVNEnsureACLs_def body split: sum.splits)
  have second: "hooks st = createdNames (drop (length (history nb)) (history (client st)))"
    using k ev by simp
  have clean': "list_all (\<lambda>n. n < calls (client st)) (failing (client st))"
    using clean f by simp
  from fold_runHook_clean[OF clean', of "rev (hooks st)"]
  have pg: "portGroups (revertFail (hooks st) (client st)) =
              filter (\<lambda>entry. fst entry \<notin> set (hooks st)) (portGroups (client st))"
    and third: "history (revertFail (hooks st) (client st)) =
           history (client st) @ map (\<lambda>name. PortGroupsDeleted [name]) (rev (hooks st))"
    by (simp_all add: revertFail_def)
  have fourth: "portGroups (revertFail (hooks st) (client st)) =
           applyWrites (drop (length (history nb)) (history (client st))) (portGroups nb)"
    unfolding ev pg p ..
  have fifth: "filter (\<lambda>entry. fst entry \<notin>
                   set (replacedNames (drop (length (history nb)) (history (client st)))))
           (portGroups (revertFail (hooks st) (client st))) =
           filter (\<lambda>entry. fst entry \<notin>
                     set (replacedNames (drop (length (history nb)) (history (client st)))))
             (portGroups nb)"
    unfolding fourth by (rule applyWrites_untouched) simp
  have sixth: "stripRules (portGroups (revertFail (hooks st) (client st))) = stripRules (portGroups nb)"
    unfolding fourth by (rule stripRules_applyWrites)
  from first second third fourth fifth sixth show ?thesis by blast
qed

text \<open>
  A failure injected at the last step, the write of the network specific rules: the
  two port groups created are deleted, the last created first, and OVN has no port
  group, as before the call.
\<close>

lemma ex_injected_result:
  "fst (OVNEnsureACLs_body example_env example_internal_db ''default'' [''a'' \<mapsto> 1]
          [\<lparr>UsageID = 3, UsageName = ''net3''\<rparr>] [''a''] False
          \<lparr>client = example_nb [] [4], hooks = []\<rparr>) = Inl (OVNFailure ''incus_acl1_net3'')"
  by code_simp

lemma ex_injected_calls:
  "calls (client (snd (OVNEnsureACLs_body example_env example_internal_db ''default'' [''a'' \<mapsto> 1]
          [\<lparr>UsageID = 3, UsageName = ''net3''\<rparr>] [''a''] False
          \<lparr>client = example_nb [] [4], hooks = []\<rparr>))) = 5"
  by code_simp

lemma ex_injected_hooks:
  "hooks (snd (OVNEnsureACLs_body example_env example_internal_db ''default'' [''a'' \<mapsto> 1]
          [\<lparr>UsageID = 3, UsageName = ''net3''\<rparr>] [''a''] False
          \<lparr>client = example_nb [] [4], hooks = []\<rparr>)) = [''incus_acl1'', ''incus_acl1_net3'']"
  by code_simp

theorem rollback_restores_port_groups_witness:
  "fst (OVNEnsureACLs example_env example_internal_db ''default'' [''a'' \<mapsto> 1]
          [\<lparr>UsageID = 3, UsageName = ''net3''\<rparr>] [''a''] False (example_nb [] [4])) =
     Inl (OVNFailure ''incus_acl1_net3'') \<and>
   portGroups (snd (OVNEnsureACLs example_env example_internal_db ''default'' [''a'' \<mapsto> 1]
          [\<lparr>UsageID = 3, UsageName = ''net3''\<rparr>] [''a''] False (example_nb [] [4]))) =
     portGroups (example_nb [] [4]) \<and>
   drop 3 (history (snd (OVNEnsureACLs example_env example_internal_db ''default'' [''a'' \<mapsto> 1]
          [\<lparr>UsageID = 3, UsageName = ''net3''\<rparr>] [''a''] False (example_nb [] [4])))) =
     [PortGroupsDeleted [''incus_acl1_net3''], PortGroupsDeleted [''incus_acl1'']]"
proof -
  let ?body = "OVNEnsureACLs_body example_env example_internal_db ''default'' [''a'' \<mapsto> 1]
          [\<lparr>UsageID = 3, UsageName = ''net3''\<rparr>] [''a''] False
          \<lparr>client = example_nb [] [4], hooks = []\<rparr>"
  have body: "?body = (fst ?body, snd ?body)" by simp
  have f: "failing (example_nb [] [4]) = [4]" by (simp add: example_nb_def)
  have g: "portGroups (example_nb [] [4]) = []" by (simp add: example_nb_def)
  have clean: "list_all (\<lambda>n. n < calls (client (snd ?body))) (failing (example_nb [] [4]))"
    unfolding f ex_injected_calls by simp
  have len: "length (history (client (snd ?body))) = 3"
    by code_simp
  note T = rollback_restores_port_groups[OF body clean]
  have a: "OVNEnsureACLs example_env example_internal_db ''default'' [''a'' \<mapsto> 1]
          [\<lparr>UsageID = 3, UsageName = ''net3''\<rparr>] [''a''] False (example_nb [] [4]) =
        (Inl (OVNFailure ''incus_acl1_net3''), revertFail (hooks (snd ?body)) (client (snd ?body)))"
    using T[THEN conjunct1] by (simp add: ex_injected_result)
  have c: "history (revertFail (hooks (snd ?body)) (client (snd ?body))) =
           history (client (snd ?body)) @
           [PortGroupsDeleted [''incus_acl1_net3''], PortGroupsDeleted [''incus_acl1'']]"
    using T[THEN conjunct2, THEN conjunct2, THEN conjunct1] by (simp add: ex_injected_hooks)
  have d: "portGroups (revertFail (hooks (snd ?body)) (client (snd ?body))) =
           portGroups (example_nb [] [4])"
    using T[THEN conjunct2, THEN conjunct2, THEN conjunct2, THEN conjunct1]
    by (simp add: g applyWrites_Nil)
  show ?thesis unfolding a fst_conv snd_conv using c d len by simp
qed

text \<open>
  The hypothesis on the calls still to come is needed: a hook drops the error of its
  deletion. When, in the same run, the deletion of \<open>incus_acl1_net3\<close> fails as
  well, that port group is left behind.
\<close>

lemma failed_deletion_leaves_port_group:
  "map fst (portGroups (snd (OVNEnsureACLs example_env example_internal_db ''default'' [''a'' \<mapsto> 1]
          [\<lparr>UsageID = 3, UsageName = ''net3''\<rparr>] [''a''] False (example_nb [] [4, 5])))) =
     [''incus_acl1_net3'']"
  by code_simp

end
